theory Spec2Isabelle
  imports Main
begin

section \<open>JavaScript values\<close>

text \<open>
  The plugin is TypeScript; at run time its inputs are JavaScript values. A string is a
  list of code units; \<^typ>\<open>char\<close> has 256 values, so the model covers the strings whose
  code units are below 256 (a \<^typ>\<open>char\<close> is read as the code unit of the same number).
  Numbers are restricted to integers in the range where \<open>String(n)\<close> is the decimal
  numeral; fractional and non-finite doubles are outside the model. An object is the
  association list of its own enumerable properties, in the order \<open>Object.keys\<close> lists
  them, with distinct keys.
\<close>

datatype jsval =
    JUndefined
  | JNull
  | JBool bool
  | JNum int
  | JStr string
  | JArr "jsval list"
  | JObj "(string \<times> jsval) list"

text \<open>A thrown \<open>Error\<close>, identified by its message (the program throws plain \<open>Error\<close>s).\<close>

datatype exn = Error string

fun message :: "exn \<Rightarrow> string" where
  "message (Error m) = m"

text \<open>Truthiness, as \<open>if (v)\<close>, \<open>!v\<close>, \<open>Boolean(v)\<close> and \<open>a || b\<close> read it.\<close>

fun truthy :: "jsval \<Rightarrow> bool" where
  "truthy JUndefined = False"
| "truthy JNull = False"
| "truthy (JBool b) = b"
| "truthy (JNum n) = (n \<noteq> 0)"
| "truthy (JStr s) = (s \<noteq> [])"
| "truthy (JArr xs) = True"
| "truthy (JObj kvs) = True"

text \<open>
  Reading a property of a record-typed value, \<open>o.k\<close>, for the property names the program
  uses (none of them is a built-in property of a string, number, boolean or array).
  Reading a property of \<open>null\<close> or \<open>undefined\<close> throws a \<open>TypeError\<close> (\<open>get_prop\<close>); the optional
  chain \<open>o?.k\<close> yields \<open>undefined\<close> there instead (\<open>prop_opt\<close>).
\<close>

fun own_prop :: "jsval \<Rightarrow> string \<Rightarrow> jsval" where
  "own_prop (JObj kvs) k = (case map_of kvs k of Some v \<Rightarrow> v | None \<Rightarrow> JUndefined)"
| "own_prop v k = JUndefined"

fun get_prop :: "jsval \<Rightarrow> string \<Rightarrow> exn + jsval" where
  "get_prop JUndefined k =
     Inl (Error (''Cannot read properties of undefined (reading '' @ [CHR 0x27] @ k @ [CHR 0x27] @ '')''))"
| "get_prop JNull k =
     Inl (Error (''Cannot read properties of null (reading '' @ [CHR 0x27] @ k @ [CHR 0x27] @ '')''))"
| "get_prop v k = Inr (own_prop v k)"

definition prop_opt :: "jsval \<Rightarrow> string \<Rightarrow> jsval" where
  "prop_opt v k = own_prop v k"

text \<open>\<open>String.prototype.trim\<close>: white space and line terminators, among the code units below 256.\<close>

definition is_space :: "char \<Rightarrow> bool" where
  "is_space c \<longleftrightarrow>
     c = CHR 0x09 \<or> c = CHR 0x0A \<or> c = CHR 0x0B \<or> c = CHR 0x0C \<or> c = CHR 0x0D
     \<or> c = CHR 0x20 \<or> c = CHR 0xA0"

definition trim :: "string \<Rightarrow> string" where
  "trim s = rev (dropWhile is_space (rev (dropWhile is_space s)))"

text \<open>\<open>String(n)\<close> for an integer: the decimal numeral, with a minus sign below zero.\<close>

definition digit_char :: "nat \<Rightarrow> char" where
  "digit_char d = char_of (48 + d)"

fun decimal :: "nat \<Rightarrow> string" where
  "decimal n = (if n < 10 then [digit_char n] else decimal (n div 10) @ [digit_char (n mod 10)])"

declare decimal.simps [simp del]

definition String_num :: "int \<Rightarrow> string" where
  "String_num n = (if n < 0 then CHR ''-'' # decimal (nat (- n)) else decimal (nat n))"

text \<open>Array.prototype.join on a list of strings.\<close>

fun join :: "string \<Rightarrow> string list \<Rightarrow> string" where
  "join sep [] = []"
| "join sep [x] = x"
| "join sep (x # y # ys) = x @ sep @ join sep (y # ys)"

text \<open>\<open>toStr(value, fallback = "")\<close> of \<open>client.ts\<close> and \<open>tools/index.ts\<close>, at the default fallback.\<close>

fun toStr :: "jsval \<Rightarrow> string" where
  "toStr (JStr s) = s"
| "toStr (JNum n) = String_num n"
| "toStr (JBool b) = (if b then ''true'' else ''false'')"
| "toStr v = []"

text \<open>
  \<open>Object.keys(v)\<close> for a truthy value: the property names of an object, the indices of an
  array or of a string, nothing for a number or a boolean.
\<close>

fun object_keys :: "jsval \<Rightarrow> string list" where
  "object_keys (JObj kvs) = map fst kvs"
| "object_keys (JArr xs) = map (\<lambda>i. decimal i) [0..<length xs]"
| "object_keys (JStr s) = map (\<lambda>i. decimal i) [0..<length s]"
| "object_keys v = []"

section \<open>Configuration (\<open>config.ts\<close>)\<close>

record JenkinsConfig =
  baseUrl :: "string option"
  account :: string
  allowedParameters :: "string list"
  timeoutMs :: int
  auditLog :: bool

text \<open>\<open>isParameterAllowed(paramName, allowedParameters)\<close>.\<close>

definition isParameterAllowed :: "string \<Rightarrow> string list \<Rightarrow> bool" where
  "isParameterAllowed paramName allowed =
     (if length allowed = 0 then False else paramName \<in> set allowed)"

text \<open>
  \<open>JSON.stringify(value, null, gap)\<close>: \<open>serialize gap indent v\<close> is the text (\<open>None\<close> where
  JavaScript yields \<open>undefined\<close>). A property whose value is \<open>undefined\<close> is left out, an
  \<open>undefined\<close> array element is written \<open>null\<close>.
\<close>

definition hex_lower :: "nat \<Rightarrow> char" where
  "hex_lower d = ''0123456789abcdef'' ! d"

definition quote_char :: "char \<Rightarrow> string" where
  "quote_char c =
     (if c = CHR 0x08 then [CHR 0x5C, CHR ''b'']
      else if c = CHR 0x09 then [CHR 0x5C, CHR ''t'']
      else if c = CHR 0x0A then [CHR 0x5C, CHR ''n'']
      else if c = CHR 0x0C then [CHR 0x5C, CHR ''f'']
      else if c = CHR 0x0D then [CHR 0x5C, CHR ''r'']
      else if c = CHR 0x22 then [CHR 0x5C, CHR 0x22]
      else if c = CHR 0x5C then [CHR 0x5C, CHR 0x5C]
      else if (of_char c :: nat) < 32
        then [CHR 0x5C, CHR ''u'', CHR ''0'', CHR ''0'',
              hex_lower (of_char c div 16), hex_lower (of_char c mod 16)]
      else [c])"

definition quote :: "string \<Rightarrow> string" where
  "quote s = [CHR 0x22] @ concat (map quote_char s) @ [CHR 0x22]"

definition brackets :: "string \<Rightarrow> string \<Rightarrow> string \<Rightarrow> string \<Rightarrow> string list \<Rightarrow> string" where
  "brackets gap stepback l r parts =
     (if parts = [] then l @ r
      else if gap = [] then l @ join '','' parts @ r
      else l @ [CHR 0x0A] @ stepback @ gap
             @ join ('','' @ [CHR 0x0A] @ stepback @ gap) parts
             @ [CHR 0x0A] @ stepback @ r)"

fun serialize :: "string \<Rightarrow> string \<Rightarrow> jsval \<Rightarrow> string option"
  and serialize_elems :: "string \<Rightarrow> string \<Rightarrow> jsval list \<Rightarrow> string list"
  and serialize_props :: "string \<Rightarrow> string \<Rightarrow> (string \<times> jsval) list \<Rightarrow> string list"
where
  "serialize gap ind JUndefined = None"
| "serialize gap ind JNull = Some ''null''"
| "serialize gap ind (JBool b) = Some (if b then ''true'' else ''false'')"
| "serialize gap ind (JNum n) = Some (String_num n)"
| "serialize gap ind (JStr s) = Some (quote s)"
| "serialize gap ind (JArr xs) =
     Some (brackets gap ind ''['' '']'' (serialize_elems gap (ind @ gap) xs))"
| "serialize gap ind (JObj kvs) =
     Some (brackets gap ind ''{'' ''}'' (serialize_props gap (ind @ gap) kvs))"
| "serialize_elems gap ind [] = []"
| "serialize_elems gap ind (x # xs) =
     (case serialize gap ind x of None \<Rightarrow> ''null'' | Some s \<Rightarrow> s) # serialize_elems gap ind xs"
| "serialize_props gap ind [] = []"
| "serialize_props gap ind ((k, v) # kvs) =
     (case serialize gap ind v of
        None \<Rightarrow> serialize_props gap ind kvs
      | Some s \<Rightarrow>
          (quote k @ '':'' @ (if gap = [] then [] else '' '') @ s) # serialize_props gap ind kvs)"

definition JSON_stringify :: "jsval \<Rightarrow> string option" where
  "JSON_stringify v = serialize [] [] v"

definition JSON_stringify2 :: "jsval \<Rightarrow> string option" where
  "JSON_stringify2 v = serialize ''  '' [] v"

text \<open>A value inside a template literal: \<open>undefined\<close> prints as the word.\<close>

definition in_template :: "string option \<Rightarrow> string" where
  "in_template t = (case t of None \<Rightarrow> ''undefined'' | Some s \<Rightarrow> s)"

section \<open>What the program does to the outside\<close>

text \<open>
  The effects of the program are kept in a trace, in the order they happen: a line given
  to \<open>logger.info\<close> or to \<open>logger.debug\<close>, a method of the client object called by a tool, a call of \<open>fetch\<close>, a
  command run with \<open>execSync\<close>. This is what the test suite's mocks observe.
\<close>

record http_req =
  url :: string
  http_method :: string
  headers :: "(string \<times> string) list"
  body :: "string option"

datatype event =
    LogInfo string
  | LogDebug string
  | ClientCall string "jsval list"
  | Fetch http_req
  | ExecSync string

type_synonym world = "event list"

section \<open>Tools (\<open>tools/index.ts\<close>)\<close>

text \<open>
  The tools reach the server through \<open>ctx.client\<close> only. The client is a parameter, as it
  is for the tests, which pass a mock: a client maps a method name and the arguments to
  what the call does to the world and to the value its promise resolves to (\<open>Inr\<close>) or
  rejects with (\<open>Inl\<close>). \<open>call_client\<close> records the call and makes it.
\<close>

type_synonym client = "string \<Rightarrow> jsval list \<Rightarrow> world \<Rightarrow> (exn + jsval) \<times> world"

record ToolContext =
  client :: client
  config :: JenkinsConfig

definition call_client :: "client \<Rightarrow> string \<Rightarrow> jsval list \<Rightarrow> world \<Rightarrow> (exn + jsval) \<times> world" where
  "call_client c m args w = c m args (w @ [ClientCall m args])"

text \<open>
  \<open>json(payload)\<close>: the envelope \<open>{content: [{type: "text", text}], details}\<close>, where
  \<open>content_text\<close> is the \<open>text\<close> of the one content item.
\<close>

record envelope =
  content_text :: "string option"
  details :: jsval

definition json :: "jsval \<Rightarrow> envelope" where
  "json payload = \<lparr>content_text = JSON_stringify2 payload, details = payload\<rparr>"

text \<open>
  \<open>auditLog(logger, config, tool, params)\<close>; named \<open>audit\<close> here, since \<open>auditLog\<close> is the
  configuration's field.
\<close>

definition audit :: "JenkinsConfig \<Rightarrow> string \<Rightarrow> jsval \<Rightarrow> world \<Rightarrow> world" where
  "audit cfg tool params w =
     (if \<not> auditLog cfg then w
      else w @ [LogInfo (''[jenkins] '' @ tool @ '': '' @ in_template (JSON_stringify params))])"

text \<open>
  The object spread \<open>{...base, ...v}\<close>: the own enumerable properties of \<open>v\<close> are assigned
  in order, a property that is already there keeping its place. (Integer-like names,
  which JavaScript lists first, are not reordered.)
\<close>

fun assign_prop :: "(string \<times> jsval) list \<Rightarrow> string \<Rightarrow> jsval \<Rightarrow> (string \<times> jsval) list" where
  "assign_prop [] k v = [(k, v)]"
| "assign_prop ((k', v') # kvs) k v =
     (if k' = k then (k, v) # kvs else (k', v') # assign_prop kvs k v)"

fun entries :: "jsval \<Rightarrow> (string \<times> jsval) list" where
  "entries (JObj kvs) = kvs"
| "entries (JArr xs) = zip (map (\<lambda>i. decimal i) [0..<length xs]) xs"
| "entries (JStr s) = zip (map (\<lambda>i. decimal i) [0..<length s]) (map (\<lambda>c. JStr [c]) s)"
| "entries v = []"

definition spread :: "(string \<times> jsval) list \<Rightarrow> jsval \<Rightarrow> (string \<times> jsval) list" where
  "spread base v = foldl (\<lambda>acc kv. assign_prop acc (fst kv) (snd kv)) base (entries v)"

text \<open>\<open>params.k\<close> on the parameter bag of a tool call.\<close>

definition param :: "(string \<times> jsval) list \<Rightarrow> string \<Rightarrow> jsval" where
  "param params k = own_prop (JObj params) k"

text \<open>The message of the error a mutating tool throws for a name outside the whitelist.\<close>

definition not_allowed_message :: "string \<Rightarrow> string list \<Rightarrow> string" where
  "not_allowed_message paramName allowed =
     ''Parameter '' @ [CHR 0x22] @ paramName @ [CHR 0x22]
       @ '' is not in the allowed parameters whitelist. ''
       @ ''Allowed: '' @ (if join '', '' allowed = [] then ''(none)'' else join '', '' allowed)"

text \<open>The loop over \<open>Object.keys(buildParams)\<close>: the first name that is not allowed throws.\<close>

fun check_whitelist :: "string list \<Rightarrow> string list \<Rightarrow> exn option" where
  "check_whitelist [] allowed = None"
| "check_whitelist (paramName # rest) allowed =
     (if \<not> isParameterAllowed paramName allowed
      then Some (Error (not_allowed_message paramName allowed))
      else check_whitelist rest allowed)"

text \<open>\<open>createTriggerBuildTool(ctx).execute(_id, params)\<close>.\<close>

definition trigger_build_execute ::
  "ToolContext \<Rightarrow> (string \<times> jsval) list \<Rightarrow> world \<Rightarrow> (exn + envelope) \<times> world" where
  "trigger_build_execute ctx params w =
     (let job = trim (toStr (param params ''job'')) in
      if job = [] then (Inl (Error ''job parameter is required''), w)
      else
        let buildParams = param params ''parameters'' in
        case (if truthy buildParams
              then check_whitelist (object_keys buildParams) (allowedParameters (config ctx))
              else None) of
          Some e \<Rightarrow> (Inl e, w)
        | None \<Rightarrow>
            let w1 = audit (config ctx) ''jenkins_trigger_build''
                       (JObj [(''job'', JStr job), (''parameters'', buildParams)]) w in
            (case call_client (client ctx) ''triggerBuild'' [JStr job, buildParams] w1 of
               (Inl e, w2) \<Rightarrow> (Inl e, w2)
             | (Inr result, w2) \<Rightarrow>
                 (Inr (json (JObj (spread [(''job'', JStr job)] result))), w2)))"

text \<open>\<open>createUpdateParameterTool(ctx).execute(_id, params)\<close>.\<close>

definition update_parameter_execute ::
  "ToolContext \<Rightarrow> (string \<times> jsval) list \<Rightarrow> world \<Rightarrow> (exn + envelope) \<times> world" where
  "update_parameter_execute ctx params w =
     (let job = trim (toStr (param params ''job'')) in
      if job = [] then (Inl (Error ''job parameter is required''), w)
      else
        let paramName = trim (toStr (param params ''parameter'')) in
        if paramName = [] then (Inl (Error ''parameter name is required''), w)
        else
          let v = toStr (param params ''value'') in
          if \<not> isParameterAllowed paramName (allowedParameters (config ctx))
          then (Inl (Error (not_allowed_message paramName (allowedParameters (config ctx)))), w)
          else
            let w1 = audit (config ctx) ''jenkins_update_parameter''
                       (JObj [(''job'', JStr job), (''parameter'', JStr paramName),
                              (''value'', JStr v)]) w in
            (case call_client (client ctx) ''updateParameter''
                    [JStr job, JStr paramName, JStr v] w1 of
               (Inl e, w2) \<Rightarrow> (Inl e, w2)
             | (Inr result, w2) \<Rightarrow>
                 (Inr (json (JObj (spread [(''job'', JStr job), (''parameter'', JStr paramName),
                                           (''value'', JStr v)] result))), w2)))"

text \<open>
  \<open>v.length\<close> on the value a client call resolved to: defined for an array and a string,
  a \<open>TypeError\<close> on \<open>null\<close> and \<open>undefined\<close>, \<open>undefined\<close> otherwise.
\<close>

fun length_prop :: "jsval \<Rightarrow> exn + jsval" where
  "length_prop (JArr xs) = Inr (JNum (int (length xs)))"
| "length_prop (JStr s) = Inr (JNum (int (length s)))"
| "length_prop v = (case get_prop v ''length'' of Inl e \<Rightarrow> Inl e | Inr u \<Rightarrow> Inr JUndefined)"

text \<open>\<open>createListJobsTool(ctx).execute(_id, params)\<close>.\<close>

definition list_jobs_execute ::
  "ToolContext \<Rightarrow> (string \<times> jsval) list \<Rightarrow> world \<Rightarrow> (exn + envelope) \<times> world" where
  "list_jobs_execute ctx params w =
     (let folder = (case param params ''folder'' of JStr s \<Rightarrow> Some (trim s) | _ \<Rightarrow> None);
          shown = (case folder of None \<Rightarrow> ''(root)'' | Some f \<Rightarrow> f);
          w1 = audit (config ctx) ''jenkins_list_jobs'' (JObj [(''folder'', JStr shown)]) w
      in case call_client (client ctx) ''listJobs''
                [case folder of None \<Rightarrow> JUndefined
                 | Some f \<Rightarrow> if f = [] then JUndefined else JStr f] w1 of
           (Inl e, w2) \<Rightarrow> (Inl e, w2)
         | (Inr jobs, w2) \<Rightarrow>
             (case length_prop jobs of
                Inl e \<Rightarrow> (Inl e, w2)
              | Inr n \<Rightarrow>
                  (Inr (json (JObj [(''folder'', JStr shown), (''jobs'', jobs), (''count'', n)])),
                   w2)))"

text \<open>\<open>createGetJobInfoTool(ctx).execute(_id, params)\<close>.\<close>

definition get_job_info_execute ::
  "ToolContext \<Rightarrow> (string \<times> jsval) list \<Rightarrow> world \<Rightarrow> (exn + envelope) \<times> world" where
  "get_job_info_execute ctx params w =
     (let job = trim (toStr (param params ''job'')) in
      if job = [] then (Inl (Error ''job parameter is required''), w)
      else
        let w1 = audit (config ctx) ''jenkins_get_job_info'' (JObj [(''job'', JStr job)]) w in
        (case call_client (client ctx) ''getJobInfo'' [JStr job] w1 of
           (Inl e, w2) \<Rightarrow> (Inl e, w2)
         | (Inr info, w2) \<Rightarrow> (Inr (json info), w2)))"

text \<open>\<open>createListBuildsTool(ctx).execute(_id, params)\<close>.\<close>

definition list_builds_execute ::
  "ToolContext \<Rightarrow> (string \<times> jsval) list \<Rightarrow> world \<Rightarrow> (exn + envelope) \<times> world" where
  "list_builds_execute ctx params w =
     (let job = trim (toStr (param params ''job'')) in
      if job = [] then (Inl (Error ''job parameter is required''), w)
      else
        let limit = (case param params ''limit'' of JNum n \<Rightarrow> JNum n | _ \<Rightarrow> JNum 10);
            w1 = audit (config ctx) ''jenkins_list_builds''
                   (JObj [(''job'', JStr job), (''limit'', limit)]) w in
        (case call_client (client ctx) ''listBuilds'' [JStr job, JObj [(''limit'', limit)]] w1 of
           (Inl e, w2) \<Rightarrow> (Inl e, w2)
         | (Inr builds, w2) \<Rightarrow>
             (Inr (json (JObj [(''job'', JStr job), (''builds'', builds)])), w2)))"

text \<open>\<open>createGetBuildInfoTool(ctx).execute(_id, params)\<close>.\<close>

definition get_build_info_execute ::
  "ToolContext \<Rightarrow> (string \<times> jsval) list \<Rightarrow> world \<Rightarrow> (exn + envelope) \<times> world" where
  "get_build_info_execute ctx params w =
     (let job = trim (toStr (param params ''job'')) in
      if job = [] then (Inl (Error ''job parameter is required''), w)
      else
        case param params ''build'' of
          JNum build \<Rightarrow>
            let w1 = audit (config ctx) ''jenkins_get_build_info''
                       (JObj [(''job'', JStr job), (''build'', JNum build)]) w in
            (case call_client (client ctx) ''getBuildInfo'' [JStr job, JNum build] w1 of
               (Inl e, w2) \<Rightarrow> (Inl e, w2)
             | (Inr info, w2) \<Rightarrow> (Inr (json info), w2))
        | _ \<Rightarrow> (Inl (Error ''build parameter is required''), w))"

text \<open>\<open>createJenkinsTools(ctx)\<close>: the six tools, each with its name and its \<open>execute\<close>.\<close>

type_synonym tool = "string \<times> ((string \<times> jsval) list \<Rightarrow> world \<Rightarrow> (exn + envelope) \<times> world)"

definition createJenkinsTools :: "ToolContext \<Rightarrow> tool list" where
  "createJenkinsTools ctx =
     [(''jenkins_list_jobs'', list_jobs_execute ctx),
      (''jenkins_get_job_info'', get_job_info_execute ctx),
      (''jenkins_list_builds'', list_builds_execute ctx),
      (''jenkins_get_build_info'', get_build_info_execute ctx),
      (''jenkins_trigger_build'', trigger_build_execute ctx),
      (''jenkins_update_parameter'', update_parameter_execute ctx)]"

section \<open>Parsing the configuration (\<open>config.ts\<close>)\<close>

text \<open>
  Zod, as far as \<open>JenkinsConfigSchema\<close> uses it. A schema maps a value to the parsed
  result or to the list of issues that \<open>parse\<close> throws as a \<open>ZodError\<close>; an issue is the path
  of the offending field and Zod's issue code. \<open>.optional()\<close> and \<open>.default(d)\<close> act on
  \<open>undefined\<close> only. Whether a string is a URL is left to the library: \<open>valid_url\<close> is a
  parameter of the schema.
\<close>

type_synonym issue = "string list \<times> string"

type_synonym 'a zod = "jsval \<Rightarrow> issue list + 'a"

fun z_string :: "string zod" where
  "z_string (JStr s) = Inr s"
| "z_string v = Inl [([], ''invalid_type'')]"

definition z_url :: "(string \<Rightarrow> bool) \<Rightarrow> string zod \<Rightarrow> string zod" where
  "z_url valid_url z v =
     (case z v of
        Inl is \<Rightarrow> Inl is
      | Inr s \<Rightarrow> if valid_url s then Inr s else Inl [([], ''invalid_string'')])"

fun z_optional :: "'a zod \<Rightarrow> 'a option zod" where
  "z_optional z JUndefined = Inr None"
| "z_optional z v = (case z v of Inl is \<Rightarrow> Inl is | Inr x \<Rightarrow> Inr (Some x))"

fun z_default :: "'a zod \<Rightarrow> 'a \<Rightarrow> 'a zod" where
  "z_default z d JUndefined = Inr d"
| "z_default z d v = z v"

fun z_boolean :: "bool zod" where
  "z_boolean (JBool b) = Inr b"
| "z_boolean v = Inl [([], ''invalid_type'')]"

fun z_number :: "int zod" where
  "z_number (JNum n) = Inr n"
| "z_number v = Inl [([], ''invalid_type'')]"

text \<open>\<open>.int()\<close> holds of every number of the model, which has integers only.\<close>

definition z_int :: "int zod \<Rightarrow> int zod" where
  "z_int z v = z v"

definition z_positive :: "int zod \<Rightarrow> int zod" where
  "z_positive z v =
     (case z v of
        Inl is \<Rightarrow> Inl is
      | Inr n \<Rightarrow> if 0 < n then Inr n else Inl [([], ''too_small'')])"

text \<open>The elements of an array, each under its index.\<close>

fun z_elements :: "'a zod \<Rightarrow> nat \<Rightarrow> jsval list \<Rightarrow> issue list + 'a list" where
  "z_elements z i [] = Inr []"
| "z_elements z i (x # xs) =
     (case (z x, z_elements z (Suc i) xs) of
        (Inr y, Inr ys) \<Rightarrow> Inr (y # ys)
      | (Inl is, Inr ys) \<Rightarrow> Inl (map (\<lambda>(p, c). (decimal i # p, c)) is)
      | (Inr y, Inl js) \<Rightarrow> Inl js
      | (Inl is, Inl js) \<Rightarrow> Inl (map (\<lambda>(p, c). (decimal i # p, c)) is @ js))"

fun z_array :: "'a zod \<Rightarrow> 'a list zod" where
  "z_array z (JArr xs) = z_elements z 0 xs"
| "z_array z v = Inl [([], ''invalid_type'')]"

text \<open>The issues of one field of an object schema, under the field's name.\<close>

definition field_issues :: "string \<Rightarrow> issue list + 'a \<Rightarrow> issue list" where
  "field_issues k r = (case r of Inl is \<Rightarrow> map (\<lambda>(p, c). (k # p, c)) is | Inr x \<Rightarrow> [])"

text \<open>
  \<open>JenkinsConfigSchema.parse(input)\<close> on an object: every field is parsed, the issues of
  all fields are collected in the order of the schema, unknown keys are dropped.
\<close>

definition JenkinsConfigSchema :: "(string \<Rightarrow> bool) \<Rightarrow> jsval \<Rightarrow> issue list + JenkinsConfig" where
  "JenkinsConfigSchema valid_url input =
     (let b = z_optional (z_url valid_url z_string) (own_prop input ''baseUrl'');
          a = z_default z_string ''default'' (own_prop input ''account'');
          p = z_default (z_array z_string) [] (own_prop input ''allowedParameters'');
          t = z_default (z_positive (z_int z_number)) 30000 (own_prop input ''timeoutMs'');
          l = z_default z_boolean True (own_prop input ''auditLog'')
      in case (b, a, p, t, l) of
           (Inr b', Inr a', Inr p', Inr t', Inr l') \<Rightarrow>
             Inr \<lparr>baseUrl = b', account = a', allowedParameters = p', timeoutMs = t',
                  auditLog = l'\<rparr>
         | _ \<Rightarrow>
             Inl (field_issues ''baseUrl'' b @ field_issues ''account'' a
                  @ field_issues ''allowedParameters'' p @ field_issues ''timeoutMs'' t
                  @ field_issues ''auditLog'' l))"

text \<open>\<open>raw && typeof raw === "object" && !Array.isArray(raw)\<close>.\<close>

fun plain_object :: "jsval \<Rightarrow> bool" where
  "plain_object (JObj kvs) = True"
| "plain_object v = False"

text \<open>\<open>parseJenkinsConfig(raw)\<close>; \<open>Inl\<close> is the \<open>ZodError\<close> thrown.\<close>

definition parseJenkinsConfig :: "(string \<Rightarrow> bool) \<Rightarrow> jsval \<Rightarrow> issue list + JenkinsConfig" where
  "parseJenkinsConfig valid_url raw =
     (let input = (if plain_object raw then raw else JObj [])
      in JenkinsConfigSchema valid_url input)"

section \<open>Credentials (\<open>keychain.ts\<close>)\<close>

record JenkinsCredentials =
  user :: string
  token :: string

text \<open>
  What the module reads from the Node process: the two environment variables,
  \<open>process.platform\<close>, \<open>child_process.execSync\<close> (a command gives its output or throws)
  and \<open>JSON.parse\<close> (\<open>None\<close> where it throws a \<open>SyntaxError\<close>).
\<close>

type_synonym execSyncFn = "string \<Rightarrow> exn + string"

record node =
  JENKINS_USER :: "string option"
  JENKINS_TOKEN :: "string option"
  process_platform :: string
  node_execSync :: execSyncFn
  JSON_parse :: "string \<Rightarrow> jsval option"

text \<open>The \<open>options\<close> argument; a missing \<open>options\<close> is the record of three \<open>None\<close>s.\<close>

record keychain_options =
  opt_account :: "string option"
  opt_platform :: "string option"
  opt_execSync :: "execSyncFn option"

definition KEYCHAIN_SERVICE :: string where
  "KEYCHAIN_SERVICE = ''OpenClaw Jenkins''"

text \<open>\<open>readCredentialsFromEnv()\<close>.\<close>

definition readCredentialsFromEnv :: "node \<Rightarrow> JenkinsCredentials option" where
  "readCredentialsFromEnv nd =
     (let u = map_option trim (JENKINS_USER nd);
          t = map_option trim (JENKINS_TOKEN nd)
      in case (u, t) of
           (Some u', Some t') \<Rightarrow>
             if u' \<noteq> [] \<and> t' \<noteq> [] then Some \<lparr>user = u', token = t'\<rparr> else None
         | _ \<Rightarrow> None)"

text \<open>
  The end of the \<open>try\<close> block of \<open>readCredentialsFromKeychain\<close>: \<open>data?.user\<close> and
  \<open>data?.token\<close> must both be non-empty strings.
\<close>

definition credentials_of_payload :: "jsval \<Rightarrow> JenkinsCredentials option" where
  "credentials_of_payload data =
     (case prop_opt data ''user'' of
        JStr u \<Rightarrow>
          if u = [] then None
          else (case prop_opt data ''token'' of
                  JStr t \<Rightarrow> if t = [] then None else Some \<lparr>user = u, token = t\<rparr>
                | _ \<Rightarrow> None)
      | _ \<Rightarrow> None)"

text \<open>The command line of the lookup.\<close>

definition find_command :: "string \<Rightarrow> string" where
  "find_command acct =
     ''security find-generic-password -s '' @ [CHR 0x22] @ KEYCHAIN_SERVICE @ [CHR 0x22]
       @ '' -a '' @ [CHR 0x22] @ acct @ [CHR 0x22] @ '' -w''"

text \<open>\<open>readCredentialsFromKeychain(options)\<close>; the command it runs goes to the trace.\<close>

definition readCredentialsFromKeychain ::
  "node \<Rightarrow> keychain_options \<Rightarrow> world \<Rightarrow> JenkinsCredentials option \<times> world" where
  "readCredentialsFromKeychain nd options w =
     (let platform = (case opt_platform options of Some p \<Rightarrow> p | None \<Rightarrow> process_platform nd)
      in if platform \<noteq> ''darwin'' then (None, w)
         else
           let acct = (case opt_account options of Some a \<Rightarrow> a | None \<Rightarrow> ''default'');
               execSyncImpl = (case opt_execSync options of Some f \<Rightarrow> f | None \<Rightarrow> node_execSync nd);
               w1 = w @ [ExecSync (find_command acct)]
           in case execSyncImpl (find_command acct) of
                Inl e \<Rightarrow> (None, w1)
              | Inr result \<Rightarrow>
                  (case JSON_parse nd (trim result) of
                     None \<Rightarrow> (None, w1)
                   | Some data \<Rightarrow> (credentials_of_payload data, w1)))"

text \<open>\<open>readJenkinsCredentials(options)\<close>.\<close>

definition readJenkinsCredentials ::
  "node \<Rightarrow> keychain_options \<Rightarrow> world \<Rightarrow> JenkinsCredentials option \<times> world" where
  "readJenkinsCredentials nd options w =
     (case readCredentialsFromEnv nd of
        Some envCredentials \<Rightarrow> (Some envCredentials, w)
      | None \<Rightarrow> readCredentialsFromKeychain nd options w)"

section \<open>The client (\<open>client.ts\<close>)\<close>

subsection \<open>Strings\<close>

definition starts_with :: "string \<Rightarrow> string \<Rightarrow> bool" where
  "starts_with s p \<longleftrightarrow> take (length p) s = p"

text \<open>\<open>s.includes(sub)\<close>.\<close>

fun str_includes :: "string \<Rightarrow> string \<Rightarrow> bool" where
  "str_includes [] sub = (sub = [])"
| "str_includes (c # s) sub = (starts_with (c # s) sub \<or> str_includes s sub)"

text \<open>\<open>s.split(sep)\<close> for a separator of one character.\<close>

fun split :: "char \<Rightarrow> string \<Rightarrow> string list" where
  "split sep [] = [[]]"
| "split sep (c # s) =
     (if c = sep then [] # split sep s
      else (case split sep s of
              [] \<Rightarrow> [[c]]
            | p # ps \<Rightarrow> (c # p) # ps))"

text \<open>
  \<open>encodeURIComponent\<close>: the unreserved characters stay, every other code unit becomes
  the percent-escapes of its UTF-8 bytes (one byte below 128, two from 128 to 255).
\<close>

definition hex_upper :: "nat \<Rightarrow> char" where
  "hex_upper d = ''0123456789ABCDEF'' ! d"

definition is_alnum :: "char \<Rightarrow> bool" where
  "is_alnum c \<longleftrightarrow>
     (let n = (of_char c :: nat)
      in (48 \<le> n \<and> n \<le> 57) \<or> (65 \<le> n \<and> n \<le> 90) \<or> (97 \<le> n \<and> n \<le> 122))"

definition uri_unreserved :: "char \<Rightarrow> bool" where
  "uri_unreserved c \<longleftrightarrow> is_alnum c \<or> c \<in> set ''-_.!~*'' \<or> c = CHR 0x27 \<or> c \<in> set ''()''"

definition pct_byte :: "nat \<Rightarrow> string" where
  "pct_byte b = [CHR ''%'', hex_upper (b div 16), hex_upper (b mod 16)]"

definition utf8 :: "char \<Rightarrow> nat list" where
  "utf8 c =
     (let n = (of_char c :: nat)
      in if n < 128 then [n] else [192 + n div 64, 128 + n mod 64])"

definition encode_unit :: "char \<Rightarrow> string" where
  "encode_unit c = (if uri_unreserved c then [c] else concat (map pct_byte (utf8 c)))"

definition encodeURIComponent :: "string \<Rightarrow> string" where
  "encodeURIComponent s = concat (map encode_unit s)"

text \<open>\<open>normalizeJobPath(jobPath)\<close>.\<close>

definition normalizeJobPath :: "string \<Rightarrow> string" where
  "normalizeJobPath jobPath =
     (let parts = filter (\<lambda>p. p \<noteq> []) (split CHR ''/'' jobPath)
      in join [] (map (\<lambda>p. ''/job/'' @ encodeURIComponent p) parts))"

text \<open>
  \<open>new URLSearchParams(record).toString()\<close>: the form encoding keeps letters, digits and
  \<open>*-._\<close>, writes a space as \<open>+\<close> and escapes the UTF-8 bytes of everything else.
\<close>

definition form_unit :: "char \<Rightarrow> string" where
  "form_unit c =
     (if is_alnum c \<or> c \<in> set ''*-._'' then [c]
      else if c = CHR '' '' then ''+''
      else concat (map pct_byte (utf8 c)))"

definition form_urlencoded :: "(string \<times> string) list \<Rightarrow> string" where
  "form_urlencoded kvs =
     join ''&'' (map (\<lambda>(k, v). concat (map form_unit k) @ ''='' @ concat (map form_unit v)) kvs)"

subsection \<open>HTTP\<close>

text \<open>
  What \<open>fetch\<close> gives back: a rejection (network failure, or the abort at the timeout), or
  a response, of which the client reads \<open>ok\<close>, \<open>status\<close>, \<open>statusText\<close>, the \<open>content-type\<close>
  header, \<open>text()\<close> and \<open>json()\<close> (each of the two resolves or rejects). The server is a
  function of the trace so far and of the request, so that it may answer the same request
  differently the second time, as the mocks of the test suite do.
\<close>

record http_response =
  resp_ok :: bool
  resp_status :: int
  resp_statusText :: string
  resp_content_type :: "string option"
  resp_text :: "exn + string"
  resp_json :: "exn + jsval"

datatype fetch_result = Rejected exn | Resolved http_response

type_synonym transport = "world \<Rightarrow> http_req \<Rightarrow> fetch_result"

definition fetch :: "transport \<Rightarrow> http_req \<Rightarrow> world \<Rightarrow> fetch_result \<times> world" where
  "fetch T req w = (T w req, w @ [Fetch req])"

text \<open>
  The fields of a constructed \<open>JenkinsClient\<close>: the base URL without its trailing slash,
  the Basic-Auth token, the timeout, and whether the logger has a \<open>debug\<close> method.
\<close>

record JenkinsClient =
  client_baseUrl :: string
  client_auth :: string
  client_timeoutMs :: int
  client_debug :: bool

datatype req_body = BodyText string | BodyRecord "(string \<times> string) list"

fun body_truthy :: "req_body option \<Rightarrow> bool" where
  "body_truthy None = False"
| "body_truthy (Some (BodyText s)) = (s \<noteq> [])"
| "body_truthy (Some (BodyRecord kvs)) = True"

fun body_string :: "req_body \<Rightarrow> string" where
  "body_string (BodyText s) = s"
| "body_string (BodyRecord kvs) = form_urlencoded kvs"

text \<open>
  \<open>request(path, options)\<close>. A debug line is an effect of its own kind, so that the info
  lines of the trace are the audit lines.
\<close>

definition request ::
  "transport \<Rightarrow> JenkinsClient \<Rightarrow> string \<Rightarrow> string option \<Rightarrow> req_body option \<Rightarrow> world
     \<Rightarrow> (exn + jsval) \<times> world" where
  "request T c path meth_opt body_opt w =
     (let u = client_baseUrl c @ path;
          m = (case meth_opt of Some m \<Rightarrow> m | None \<Rightarrow> ''GET'');
          w1 = (if client_debug c then w @ [LogDebug (''Jenkins API: '' @ m @ '' '' @ u)] else w);
          hs = [(''Authorization'', ''Basic '' @ client_auth c), (''Accept'', ''application/json'')];
          req = (if body_truthy body_opt
                 then \<lparr>url = u, http_method = m,
                       headers = hs @ [(''Content-Type'', ''application/x-www-form-urlencoded'')],
                       body = map_option body_string body_opt\<rparr>
                 else \<lparr>url = u, http_method = m, headers = hs, body = None\<rparr>)
      in case fetch T req w1 of
           (Rejected e, w2) \<Rightarrow> (Inl e, w2)
         | (Resolved r, w2) \<Rightarrow>
             if \<not> resp_ok r then
               (let t = (case resp_text r of Inl e \<Rightarrow> [] | Inr s \<Rightarrow> s)
                in (Inl (Error (''Jenkins API error: '' @ String_num (resp_status r) @ '' ''
                                 @ resp_statusText r
                                 @ (if t \<noteq> [] then '' - '' @ take 200 t else []))), w2))
             else if str_includes (case resp_content_type r of Some t \<Rightarrow> t | None \<Rightarrow> [])
                       ''application/json''
             then (resp_json r, w2)
             else (Inr (JObj []), w2))"

subsection \<open>Job information\<close>

record JenkinsParameter =
  param_name :: string
  param_type :: string
  param_description :: "string option"
  param_defaultValue :: "string option"
  param_choices :: "string list option"

record build_ref =
  ref_number :: int
  ref_url :: string

record JenkinsJobInfo =
  job_name :: string
  job_url :: string
  job_description :: "string option"
  buildable :: bool
  inQueue :: bool
  lastBuild :: "build_ref option"
  lastSuccessfulBuild :: "build_ref option"
  lastFailedBuild :: "build_ref option"
  parameters :: "JenkinsParameter list option"

text \<open>\<open>typeof v === "object"\<close>, which holds of \<open>null\<close> and of arrays too.\<close>

fun typeof_object :: "jsval \<Rightarrow> bool" where
  "typeof_object JNull = True"
| "typeof_object (JArr xs) = True"
| "typeof_object (JObj kvs) = True"
| "typeof_object v = False"

text \<open>
  \<open>s.replace(/.*\./, "")\<close>: without the \<open>s\<close> flag the dot stops at a line terminator, so
  the first line that has a dot loses everything up to its last dot.
\<close>

definition is_line_terminator :: "char \<Rightarrow> bool" where
  "is_line_terminator c \<longleftrightarrow> c = CHR 0x0A \<or> c = CHR 0x0D"

function strip_to_last_dot :: "string \<Rightarrow> string" where
  "strip_to_last_dot s =
     (let line = takeWhile (\<lambda>c. \<not> is_line_terminator c) s;
          rest = dropWhile (\<lambda>c. \<not> is_line_terminator c) s
      in if CHR ''.'' \<in> set line then rev (takeWhile (\<lambda>c. c \<noteq> CHR ''.'') (rev line)) @ rest
         else (case rest of [] \<Rightarrow> line | t # r \<Rightarrow> line @ t # strip_to_last_dot r))"
  by pat_completeness auto
termination
proof (relation "measure length")
  show "wf (measure length)" by simp
next
  fix s :: string and line rest t r
  assume "rest = dropWhile (\<lambda>c. \<not> is_line_terminator c) s" and "rest = t # r"
  then have "length (t # r) \<le> length s"
    by (metis length_dropWhile_le)
  then show "(r, s) \<in> measure length" by simp
qed

declare strip_to_last_dot.simps [simp del]

text \<open>The object pushed for one parameter definition.\<close>

definition make_parameter :: "jsval \<Rightarrow> JenkinsParameter" where
  "make_parameter d =
     (let defaultVal = own_prop d ''defaultParameterValue''
      in \<lparr>param_name = toStr (own_prop d ''name''),
          param_type = strip_to_last_dot (toStr (own_prop d ''type'')),
          param_description = (case own_prop d ''description'' of JStr s \<Rightarrow> Some s | _ \<Rightarrow> None),
          param_defaultValue =
            (if prop_opt defaultVal ''value'' \<noteq> JUndefined
             then Some (toStr (prop_opt defaultVal ''value'')) else None),
          param_choices = (case own_prop d ''choices'' of JArr cs \<Rightarrow> Some (map toStr cs) | _ \<Rightarrow> None)\<rparr>)"

text \<open>The inner loop of \<open>extractParameters\<close>, over \<open>defs\<close>; \<open>params\<close> is the array it pushes to.\<close>

fun definitions_loop :: "jsval list \<Rightarrow> JenkinsParameter list \<Rightarrow> JenkinsParameter list" where
  "definitions_loop [] params = params"
| "definitions_loop (d # defs) params =
     (if \<not> truthy d \<or> \<not> typeof_object d then definitions_loop defs params
      else definitions_loop defs (params @ [make_parameter d]))"

text \<open>The outer loop, over \<open>property\<close>.\<close>

fun property_loop :: "jsval list \<Rightarrow> JenkinsParameter list \<Rightarrow> JenkinsParameter list" where
  "property_loop [] params = params"
| "property_loop (p # property) params =
     (if \<not> truthy p \<or> \<not> typeof_object p then property_loop property params
      else (case own_prop p ''parameterDefinitions'' of
              JArr defs \<Rightarrow> property_loop property (definitions_loop defs params)
            | _ \<Rightarrow> property_loop property params))"

text \<open>\<open>extractParameters(data)\<close>.\<close>

definition extractParameters :: "jsval \<Rightarrow> exn + JenkinsParameter list option" where
  "extractParameters data =
     (case get_prop data ''property'' of
        Inl e \<Rightarrow> Inl e
      | Inr (JArr property) \<Rightarrow>
          (let params = property_loop property []
           in Inr (if length params > 0 then Some params else None))
      | Inr _ \<Rightarrow> Inr None)"

text \<open>\<open>extractBuildRef(data)\<close>.\<close>

definition extractBuildRef :: "jsval \<Rightarrow> build_ref option" where
  "extractBuildRef data =
     (if \<not> truthy data \<or> \<not> typeof_object data then None
      else (case own_prop data ''number'' of
              JNum n \<Rightarrow> Some \<lparr>ref_number = n, ref_url = toStr (own_prop data ''url'')\<rparr>
            | _ \<Rightarrow> None))"

definition job_info_tree :: string where
  "job_info_tree =
     ''/api/json?tree=name,url,description,buildable,inQueue,lastBuild[number,url],''
     @ ''lastSuccessfulBuild[number,url],lastFailedBuild[number,url],''
     @ ''property[parameterDefinitions[name,type,description,defaultParameterValue[value],choices]]''"

text \<open>\<open>getJobInfo(jobPath)\<close>.\<close>

definition getJobInfo ::
  "transport \<Rightarrow> JenkinsClient \<Rightarrow> string \<Rightarrow> world \<Rightarrow> (exn + JenkinsJobInfo) \<times> world" where
  "getJobInfo T c jobPath w =
     (let normalizedPath = normalizeJobPath jobPath
      in case request T c (normalizedPath @ job_info_tree) None None w of
           (Inl e, w1) \<Rightarrow> (Inl e, w1)
         | (Inr data, w1) \<Rightarrow>
             (case extractParameters data of
                Inl e \<Rightarrow> (Inl e, w1)
              | Inr ps \<Rightarrow>
                  (Inr \<lparr>job_name = toStr (own_prop data ''name''),
                        job_url = toStr (own_prop data ''url''),
                        job_description =
                          (case own_prop data ''description'' of JStr s \<Rightarrow> Some s | _ \<Rightarrow> None),
                        buildable = truthy (own_prop data ''buildable''),
                        inQueue = truthy (own_prop data ''inQueue''),
                        lastBuild = extractBuildRef (own_prop data ''lastBuild''),
                        lastSuccessfulBuild = extractBuildRef (own_prop data ''lastSuccessfulBuild''),
                        lastFailedBuild = extractBuildRef (own_prop data ''lastFailedBuild''),
                        parameters = ps\<rparr>, w1)))"

subsection \<open>Triggering a build\<close>

text \<open>\<open>triggerBuild(jobPath, parameters)\<close>; the result is the object \<open>{queued, queueUrl}\<close>.\<close>

definition triggerBuild ::
  "transport \<Rightarrow> JenkinsClient \<Rightarrow> string \<Rightarrow> (string \<times> string) list option \<Rightarrow> world
     \<Rightarrow> (exn + jsval) \<times> world" where
  "triggerBuild T c jobPath params w =
     (let normalizedPath = normalizeJobPath jobPath;
          endpoint = (case params of
                        Some kvs \<Rightarrow> if length kvs > 0 then normalizedPath @ ''/buildWithParameters''
                                    else normalizedPath @ ''/build''
                      | None \<Rightarrow> normalizedPath @ ''/build'')
      in case request T c endpoint (Some ''POST'') (map_option BodyRecord params) w of
           (Inl e, w1) \<Rightarrow> (Inl e, w1)
         | (Inr response, w1) \<Rightarrow>
             (case get_prop response ''queueUrl'' of
                Inl e \<Rightarrow> (Inl e, w1)
              | Inr q \<Rightarrow>
                  (Inr (JObj [(''queued'', JBool True),
                              (''queueUrl'', case q of JStr s \<Rightarrow> JStr s | _ \<Rightarrow> JUndefined)]), w1)))"

subsection \<open>Updating a default parameter value\<close>

text \<open>\<open>escapeXml(str)\<close>: five global replacements of one character each, in this order.\<close>

definition replace_char :: "char \<Rightarrow> string \<Rightarrow> string \<Rightarrow> string" where
  "replace_char c r s = concat (map (\<lambda>x. if x = c then r else [x]) s)"

definition escapeXml :: "string \<Rightarrow> string" where
  "escapeXml str =
     replace_char (CHR 0x27) ''&apos;''
       (replace_char (CHR 0x22) ''&quot;''
          (replace_char CHR ''>'' ''&gt;''
             (replace_char CHR ''<'' ''&lt;''
                (replace_char CHR ''&'' ''&amp;'' str))))"

text \<open>
  \<open>escapeRegex(str)\<close>: a backslash before each of the fourteen syntax characters
  \<open>. * + ? ^ $ { } ( ) | [ ] \\<close>.
\<close>

definition regex_syntax_char :: "char \<Rightarrow> bool" where
  "regex_syntax_char c \<longleftrightarrow> c \<in> set ''.*+?^${}()|[]'' \<or> c = CHR 0x5C"

definition escapeRegex :: "string \<Rightarrow> string" where
  "escapeRegex str = concat (map (\<lambda>c. if regex_syntax_char c then [CHR 0x5C, c] else [c]) str)"

text \<open>
  The escaped name stands in the source of the pattern. As a piece of a regular expression
  it is read atom by atom: a backslash and a syntax character is that character, any
  other character but a syntax character is itself. \<open>pattern_literal\<close> is the string such a
  piece matches, and \<open>None\<close> where the piece is anything but a sequence of these atoms.
\<close>

fun pattern_literal :: "string \<Rightarrow> string option" where
  "pattern_literal [] = Some []"
| "pattern_literal [c] = (if regex_syntax_char c then None else Some [c])"
| "pattern_literal (c # d # r) =
     (if c = CHR 0x5C
      then (if regex_syntax_char d then map_option (\<lambda>l. d # l) (pattern_literal r) else None)
      else if regex_syntax_char c then None
      else map_option (\<lambda>l. c # l) (pattern_literal (d # r)))"

text \<open>The first occurrence of \<open>needle\<close>: the text before it and the text after it.\<close>

fun split_first :: "string \<Rightarrow> string \<Rightarrow> (string \<times> string) option" where
  "split_first needle [] = (if needle = [] then Some ([], []) else None)"
| "split_first needle (c # s) =
     (if starts_with (c # s) needle then Some ([], drop (length needle) (c # s))
      else map_option (\<lambda>(a, b). (c # a, b)) (split_first needle s))"

text \<open>
  The pattern
  \<open>(<hudson\.model\.StringParameterDefinition>\s*<name>NAME</name>.*?<defaultValue>)(.*?)(</defaultValue>)\<close>
  with the flag \<open>s\<close>, tried at the start of \<open>s\<close>. Its literal parts leave the matcher no
  choice: the white space is taken whole, the first lazy \<open>.*?\<close> ends at the first
  \<open><defaultValue>\<close> and the second at the first \<open></defaultValue>\<close> after it. The result is
  the three groups and the text after the match.
\<close>

definition param_open :: string where
  "param_open = ''<hudson.model.StringParameterDefinition>''"

definition name_element :: "string \<Rightarrow> string" where
  "name_element lit = ''<name>'' @ lit @ ''</name>''"

definition value_open :: string where
  "value_open = ''<defaultValue>''"

definition value_close :: string where
  "value_close = ''</defaultValue>''"

definition match_here :: "string \<Rightarrow> string \<Rightarrow> (string \<times> string \<times> string \<times> string) option" where
  "match_here lit s =
     (if \<not> starts_with s param_open then None
      else
        let s1 = drop (length param_open) s;
            spaces = takeWhile is_space s1;
            s2 = dropWhile is_space s1
        in if \<not> starts_with s2 (name_element lit) then None
           else
             case split_first value_open (drop (length (name_element lit)) s2) of
               None \<Rightarrow> None
             | Some (between, s3) \<Rightarrow>
                 (case split_first value_close s3 of
                    None \<Rightarrow> None
                  | Some (old, post) \<Rightarrow>
                      Some (param_open @ spaces @ name_element lit @ between @ value_open,
                            old, value_close, post)))"

text \<open>The leftmost match: the text before it, the groups, the text after it.\<close>

fun pattern_exec ::
  "string \<Rightarrow> string \<Rightarrow> (string \<times> (string \<times> string \<times> string) \<times> string) option" where
  "pattern_exec lit [] =
     (case match_here lit [] of
        Some (g1, g2, g3, post) \<Rightarrow> Some ([], (g1, g2, g3), post)
      | None \<Rightarrow> None)"
| "pattern_exec lit (c # s) =
     (case match_here lit (c # s) of
        Some (g1, g2, g3, post) \<Rightarrow> Some ([], (g1, g2, g3), post)
      | None \<Rightarrow> map_option (\<lambda>(pre, g, post). (c # pre, g, post)) (pattern_exec lit s))"

text \<open>\<open>paramPattern.test(configXml)\<close>.\<close>

definition pattern_test :: "string \<Rightarrow> string \<Rightarrow> bool" where
  "pattern_test lit xml \<longleftrightarrow> pattern_exec lit xml \<noteq> None"

text \<open>
  The replacement text of \<open>String.prototype.replace\<close> for a pattern of three groups and
  no named group: \<open>$$\<close>, \<open>$&\<close>, \<open>$`\<close>, \<open>$'\<close> and \<open>$n\<close>, \<open>$nn\<close> are substituted, any other \<open>$\<close>
  stays. A two-digit number above three falls back to its first digit.
\<close>

definition is_digit :: "char \<Rightarrow> bool" where
  "is_digit c \<longleftrightarrow> 48 \<le> (of_char c :: nat) \<and> (of_char c :: nat) \<le> 57"

definition digit_value :: "char \<Rightarrow> nat" where
  "digit_value c = of_char c - 48"

fun substitute :: "string \<Rightarrow> string \<Rightarrow> string \<Rightarrow> string list \<Rightarrow> string \<Rightarrow> string" where
  "substitute matched pre post groups [] = []"
| "substitute matched pre post groups [c] = [c]"
| "substitute matched pre post groups (c # d # r) =
     (if c \<noteq> CHR ''$'' then c # substitute matched pre post groups (d # r)
      else if d = CHR ''$'' then CHR ''$'' # substitute matched pre post groups r
      else if d = CHR ''&'' then matched @ substitute matched pre post groups r
      else if d = CHR 0x60 then pre @ substitute matched pre post groups r
      else if d = CHR 0x27 then post @ substitute matched pre post groups r
      else if is_digit d then
        (case r of
           [] \<Rightarrow>
             (if 1 \<le> digit_value d \<and> digit_value d \<le> length groups
              then groups ! (digit_value d - 1)
              else [c, d])
         | e # r' \<Rightarrow>
             (if is_digit e \<and> 10 * digit_value d + digit_value e \<le> length groups
              then (if 1 \<le> 10 * digit_value d + digit_value e
                    then groups ! (10 * digit_value d + digit_value e - 1)
                           @ substitute matched pre post groups r'
                    else [c, d, e] @ substitute matched pre post groups r')
              else (if 1 \<le> digit_value d \<and> digit_value d \<le> length groups
                    then groups ! (digit_value d - 1)
                           @ substitute matched pre post groups (e # r')
                    else [c, d] @ substitute matched pre post groups (e # r'))))
      else c # substitute matched pre post groups (d # r))"

text \<open>\<open>configXml.replace(paramPattern, template)\<close>: the leftmost match only.\<close>

definition pattern_replace :: "string \<Rightarrow> string \<Rightarrow> string \<Rightarrow> string" where
  "pattern_replace lit xml template =
     (case pattern_exec lit xml of
        None \<Rightarrow> xml
      | Some (pre, (g1, g2, g3), post) \<Rightarrow>
          pre @ substitute (g1 @ g2 @ g3) pre post [g1, g2, g3] template @ post)"

text \<open>\<open>updateParameter(jobPath, paramName, newValue)\<close>; the result is the object \<open>{updated}\<close>.\<close>

definition updateParameter ::
  "transport \<Rightarrow> JenkinsClient \<Rightarrow> string \<Rightarrow> string \<Rightarrow> string \<Rightarrow> world \<Rightarrow> (exn + jsval) \<times> world" where
  "updateParameter T c jobPath paramName newValue w =
     (let normalizedPath = normalizeJobPath jobPath;
          configUrl = normalizedPath @ ''/config.xml''
      in case fetch T \<lparr>url = client_baseUrl c @ configUrl, http_method = ''GET'',
                       headers = [(''Authorization'', ''Basic '' @ client_auth c)],
                       body = None\<rparr> w of
           (Rejected e, w1) \<Rightarrow> (Inl e, w1)
         | (Resolved configResponse, w1) \<Rightarrow>
             if \<not> resp_ok configResponse
             then (Inl (Error (''Failed to fetch job config: ''
                               @ String_num (resp_status configResponse))), w1)
             else
               (case resp_text configResponse of
                  Inl e \<Rightarrow> (Inl e, w1)
                | Inr configXml \<Rightarrow>
                    (case pattern_literal (escapeRegex paramName) of
                       None \<Rightarrow> (Inl (Error ''Invalid regular expression''), w1)
                     | Some lit \<Rightarrow>
                         if \<not> pattern_test lit configXml
                         then (Inl (Error (''Parameter '' @ [CHR 0x22] @ paramName @ [CHR 0x22]
                                           @ '' not found in job config'')), w1)
                         else
                           (let configXml' =
                                  pattern_replace lit configXml
                                    (''$1'' @ escapeXml newValue @ ''$3'')
                            in case fetch T \<lparr>url = client_baseUrl c @ configUrl,
                                             http_method = ''POST'',
                                             headers = [(''Authorization'', ''Basic '' @ client_auth c),
                                                        (''Content-Type'', ''application/xml'')],
                                             body = Some configXml'\<rparr> w1 of
                                 (Rejected e, w2) \<Rightarrow> (Inl e, w2)
                               | (Resolved updateResponse, w2) \<Rightarrow>
                                   if \<not> resp_ok updateResponse
                                   then (Inl (Error (''Failed to update job config: ''
                                                     @ String_num (resp_status updateResponse))), w2)
                                   else (Inr (JObj [(''updated'', JBool True)]), w2)))))"

subsection \<open>Testing the connection\<close>

record connection_result =
  ok :: bool
  version :: "string option"
  error :: "string option"

text \<open>\<open>try { body } catch (err) { handler }\<close> around an effectful computation.\<close>

definition try_catch ::
  "(exn + 'a) \<times> world \<Rightarrow> (exn \<Rightarrow> world \<Rightarrow> (exn + 'a) \<times> world) \<Rightarrow> (exn + 'a) \<times> world" where
  "try_catch r handler = (case r of (Inl e, w) \<Rightarrow> handler e w | (Inr v, w) \<Rightarrow> (Inr v, w))"

text \<open>The body of the inner \<open>try\<close>: the call of \<open>/me/api/json\<close>.\<close>

definition who_am_i ::
  "transport \<Rightarrow> JenkinsClient \<Rightarrow> world \<Rightarrow> (exn + connection_result) \<times> world" where
  "who_am_i T c w =
     (case request T c ''/me/api/json'' None None w of
        (Inl e, w1) \<Rightarrow> (Inl e, w1)
      | (Inr meData, w1) \<Rightarrow>
          (case get_prop meData ''fullName'' of
             Inl e \<Rightarrow> (Inl e, w1)
           | Inr f \<Rightarrow>
               (let fullName = (case f of JStr s \<Rightarrow> Some s | _ \<Rightarrow> None)
                in (Inr \<lparr>ok = True,
                         version = Some (case fullName of
                                           Some s \<Rightarrow> if s \<noteq> [] then ''Authenticated as '' @ s
                                                     else ''Authenticated''
                                         | None \<Rightarrow> ''Authenticated''),
                         error = None\<rparr>, w1))))"

text \<open>The body of the inner \<open>catch\<close>: the call of \<open>/api/json?tree=nodeDescription\<close>.\<close>

definition basic_info ::
  "transport \<Rightarrow> JenkinsClient \<Rightarrow> world \<Rightarrow> (exn + connection_result) \<times> world" where
  "basic_info T c w =
     (case request T c ''/api/json?tree=nodeDescription'' None None w of
        (Inl e, w1) \<Rightarrow> (Inl e, w1)
      | (Inr data, w1) \<Rightarrow>
          (case get_prop data ''nodeDescription'' of
             Inl e \<Rightarrow> (Inl e, w1)
           | Inr d \<Rightarrow>
               (Inr \<lparr>ok = True,
                     version = (case d of JStr s \<Rightarrow> Some s | _ \<Rightarrow> None),
                     error = None\<rparr>, w1)))"

text \<open>\<open>testConnection()\<close>; every value thrown is an \<open>Error\<close>, so the handler reads its message.\<close>

definition testConnection ::
  "transport \<Rightarrow> JenkinsClient \<Rightarrow> world \<Rightarrow> (exn + connection_result) \<times> world" where
  "testConnection T c w =
     try_catch
       (try_catch (who_am_i T c w) (\<lambda>e1 w1. basic_info T c w1))
       (\<lambda>err w2. (Inr \<lparr>ok = False, version = None, error = Some (message err)\<rparr>, w2))"

section \<open>Vocabulary of the properties\<close>

text \<open>
  An invocation passes the checks of its tool when the required inputs are there and, for
  the two mutating tools, every parameter name is in the whitelist: these are the checks
  each \<open>execute\<close> makes before it writes the audit line.
\<close>

definition passes_checks :: "ToolContext \<Rightarrow> string \<Rightarrow> (string \<times> jsval) list \<Rightarrow> bool" where
  "passes_checks ctx name params \<longleftrightarrow>
     (name = ''jenkins_list_jobs''
      \<or> trim (toStr (param params ''job'')) \<noteq> []
        \<and> (name = ''jenkins_get_job_info''
           \<or> name = ''jenkins_list_builds''
           \<or> name = ''jenkins_get_build_info'' \<and> (\<exists>n. param params ''build'' = JNum n)
           \<or> name = ''jenkins_trigger_build''
               \<and> (truthy (param params ''parameters'') \<longrightarrow>
                    (\<forall>k \<in> set (object_keys (param params ''parameters'')).
                       k \<in> set (allowedParameters (config ctx))))
           \<or> name = ''jenkins_update_parameter''
               \<and> trim (toStr (param params ''parameter'')) \<noteq> []
               \<and> trim (toStr (param params ''parameter'')) \<in> set (allowedParameters (config ctx))))"

text \<open>The audit line of a tool for the inputs it logs.\<close>

definition audit_line :: "string \<Rightarrow> (string \<times> jsval) list \<Rightarrow> string" where
  "audit_line name inputs = ''[jenkins] '' @ name @ '': '' @ in_template (JSON_stringify (JObj inputs))"

text \<open>
  An invocation is dispatched when the world it hands to a method of the client is the
  world it started in, then the audit line if auditing is on, then the record of the
  call, and the world it ends in is the one the client left.
\<close>

definition dispatched ::
  "ToolContext \<Rightarrow> string \<Rightarrow> ((string \<times> jsval) list \<Rightarrow> world \<Rightarrow> (exn + envelope) \<times> world)
     \<Rightarrow> (string \<times> jsval) list \<Rightarrow> world \<Rightarrow> bool" where
  "dispatched ctx name exec params w \<longleftrightarrow>
     (\<exists>m args inputs.
        snd (exec params w) =
          snd (client ctx m args
                 (w @ (if auditLog (config ctx) then [LogInfo (audit_line name inputs)] else [])
                    @ [ClientCall m args])))"

text \<open>
  What the specification asks of the raw configuration: a field that is there has the
  shape its schema declares. \<open>as_object\<close> is the object the resolver reads, \<open>with_defaults\<close>
  the configuration of a well-typed object, absent fields at their defaults.
\<close>

fun is_JStr :: "jsval \<Rightarrow> bool" where
  "is_JStr (JStr s) = True"
| "is_JStr v = False"

definition as_object :: "jsval \<Rightarrow> jsval" where
  "as_object raw = (if plain_object raw then raw else JObj [])"

definition well_typed :: "(string \<Rightarrow> bool) \<Rightarrow> jsval \<Rightarrow> bool" where
  "well_typed valid_url input \<longleftrightarrow>
     (case own_prop input ''baseUrl'' of JUndefined \<Rightarrow> True | JStr s \<Rightarrow> valid_url s | _ \<Rightarrow> False)
   \<and> (case own_prop input ''account'' of JUndefined \<Rightarrow> True | JStr s \<Rightarrow> True | _ \<Rightarrow> False)
   \<and> (case own_prop input ''allowedParameters'' of
         JUndefined \<Rightarrow> True | JArr xs \<Rightarrow> list_all is_JStr xs | _ \<Rightarrow> False)
   \<and> (case own_prop input ''timeoutMs'' of JUndefined \<Rightarrow> True | JNum n \<Rightarrow> 0 < n | _ \<Rightarrow> False)
   \<and> (case own_prop input ''auditLog'' of JUndefined \<Rightarrow> True | JBool b \<Rightarrow> True | _ \<Rightarrow> False)"

definition with_defaults :: "jsval \<Rightarrow> JenkinsConfig" where
  "with_defaults input =
     \<lparr>baseUrl = (case own_prop input ''baseUrl'' of JStr s \<Rightarrow> Some s | _ \<Rightarrow> None),
      account = (case own_prop input ''account'' of JStr s \<Rightarrow> s | _ \<Rightarrow> ''default''),
      allowedParameters =
        (case own_prop input ''allowedParameters'' of JArr xs \<Rightarrow> map toStr xs | _ \<Rightarrow> []),
      timeoutMs = (case own_prop input ''timeoutMs'' of JNum n \<Rightarrow> n | _ \<Rightarrow> 30000),
      auditLog = (case own_prop input ''auditLog'' of JBool b \<Rightarrow> b | _ \<Rightarrow> True)\<rparr>"

text \<open>
  The configuration document has a block for a parameter: somewhere in it stands the
  opening tag of a string parameter, white space, the \<open>name\<close> element of exactly this name,
  and further on a \<open>defaultValue\<close> element.
\<close>

definition has_parameter_block :: "string \<Rightarrow> string \<Rightarrow> bool" where
  "has_parameter_block name xml \<longleftrightarrow>
     (\<exists>pre spaces between old post.
        xml = pre @ param_open @ spaces @ name_element name @ between
                @ value_open @ old @ value_close @ post
        \<and> (\<forall>c \<in> set spaces. is_space c))"

text \<open>The request that fetches the configuration document, and the message for a parameter
  that is not in it.\<close>

definition config_request :: "JenkinsClient \<Rightarrow> string \<Rightarrow> http_req" where
  "config_request c jobPath =
     \<lparr>url = client_baseUrl c @ normalizeJobPath jobPath @ ''/config.xml'', http_method = ''GET'',
      headers = [(''Authorization'', ''Basic '' @ client_auth c)], body = None\<rparr>"

definition not_found_message :: "string \<Rightarrow> string" where
  "not_found_message paramName =
     ''Parameter '' @ [CHR 0x22] @ paramName @ [CHR 0x22] @ '' not found in job config''"

text \<open>
  The parameter definitions of one entry of \<open>property\<close>, and of all entries in the order of
  the response.
\<close>

definition block_definitions :: "jsval \<Rightarrow> JenkinsParameter list" where
  "block_definitions p =
     (if truthy p \<and> typeof_object p
      then (case own_prop p ''parameterDefinitions'' of
              JArr defs \<Rightarrow> map make_parameter (filter (\<lambda>d. truthy d \<and> typeof_object d) defs)
            | _ \<Rightarrow> [])
      else [])"

definition all_definitions :: "jsval list \<Rightarrow> JenkinsParameter list" where
  "all_definitions property = concat (map block_definitions property)"

section \<open>Test doubles\<close>

text \<open>
  The stand-ins the test suite uses, for the closed instances below: a client whose every
  method resolves to a fixed value and touches nothing (\<open>vi.fn().mockResolvedValue(r)\<close>),
  and the suite's \<open>mockConfig\<close> with a chosen whitelist.
\<close>

definition mock_client :: "jsval \<Rightarrow> client" where
  "mock_client r = (\<lambda>m args w. (Inr r, w))"

definition test_config :: "string list \<Rightarrow> JenkinsConfig" where
  "test_config allowed =
     \<lparr>baseUrl = Some ''https://jenkins.example.com'', account = ''default'',
      allowedParameters = allowed, timeoutMs = 30000, auditLog = True\<rparr>"

text \<open>
  A Mac whose vault holds \<open>{"user":"admin","token":"secret123"}\<close> for every account, with
  the two environment variables as given; \<open>JSON.parse\<close> is the stub that reads this one
  text. \<open>no_options\<close> is the call without an argument.
\<close>

definition admin_payload :: jsval where
  "admin_payload = JObj [(''user'', JStr ''admin''), (''token'', JStr ''secret123'')]"

definition admin_json :: string where
  "admin_json = in_template (JSON_stringify admin_payload)"

definition vault_node :: "string option \<Rightarrow> string option \<Rightarrow> node" where
  "vault_node u t =
     \<lparr>JENKINS_USER = u, JENKINS_TOKEN = t, process_platform = ''darwin'',
      node_execSync = (\<lambda>cmd. Inr admin_json),
      JSON_parse = (\<lambda>s. if s = admin_json then Some admin_payload else None)\<rparr>"

definition no_options :: keychain_options where
  "no_options = \<lparr>opt_account = None, opt_platform = None, opt_execSync = None\<rparr>"

text \<open>
  The client of the test suite, and a server that answers every request with the
  configuration document of a job whose one string parameter is \<open>APP_VERSION\<close>.
\<close>

definition test_client :: JenkinsClient where
  "test_client = \<lparr>client_baseUrl = ''https://jenkins.example.com'', client_auth = ''YWRtaW46YXBpLXRva2Vu'',
                  client_timeoutMs = 5000, client_debug = False\<rparr>"

definition sample_config_xml :: string where
  "sample_config_xml =
     ''<project><properties><hudson.model.ParametersDefinitionProperty><parameterDefinitions>''
     @ ''<hudson.model.StringParameterDefinition> <name>APP_VERSION</name>''
     @ ''<description>version</description><defaultValue>1.0.0</defaultValue>''
     @ ''</hudson.model.StringParameterDefinition></parameterDefinitions>''
     @ ''</hudson.model.ParametersDefinitionProperty></properties></project>''"

definition xml_response :: "string \<Rightarrow> http_response" where
  "xml_response xml =
     \<lparr>resp_ok = True, resp_status = 200, resp_statusText = ''OK'',
      resp_content_type = Some ''application/xml'', resp_text = Inr xml,
      resp_json = Inl (Error ''Unexpected token < in JSON at position 0'')\<rparr>"

definition config_server :: transport where
  "config_server = (\<lambda>w req. Resolved (xml_response sample_config_xml))"

text \<open>
  A server that answers every request with a JSON document, and two documents for a job:
  one with two \<open>property\<close> entries that each carry a list of one string parameter, one
  with the first of the two entries only.
\<close>

definition json_response :: "jsval \<Rightarrow> http_response" where
  "json_response data =
     \<lparr>resp_ok = True, resp_status = 200, resp_statusText = ''OK'',
      resp_content_type = Some ''application/json'', resp_text = Inr (in_template (JSON_stringify data)),
      resp_json = Inr data\<rparr>"

definition json_server :: "jsval \<Rightarrow> transport" where
  "json_server data = (\<lambda>w req. Resolved (json_response data))"

definition string_parameter :: "string \<Rightarrow> jsval" where
  "string_parameter n =
     JObj [(''name'', JStr n), (''type'', JStr ''StringParameterDefinition'')]"

definition two_blocks :: jsval where
  "two_blocks =
     JObj [(''name'', JStr ''my-job''),
           (''property'',
            JArr [JObj [(''parameterDefinitions'', JArr [string_parameter ''A''])],
                  JObj [(''parameterDefinitions'', JArr [string_parameter ''B''])]])]"

definition first_block_only :: jsval where
  "first_block_only =
     JObj [(''name'', JStr ''my-job''),
           (''property'',
            JArr [JObj [(''parameterDefinitions'', JArr [string_parameter ''A''])]])]"

definition parameter_named :: "string \<Rightarrow> JenkinsParameter" where
  "parameter_named n =
     \<lparr>param_name = n, param_type = ''StringParameterDefinition'', param_description = None,
      param_defaultValue = None, param_choices = None\<rparr>"

(*PROPERTIES*)
section \<open>The whitelist gate of the mutating tools\<close>

lemma isParameterAllowed_iff: "isParameterAllowed n W \<longleftrightarrow> n \<in> set W"
  by (cases W) (simp_all add: isParameterAllowed_def)

lemma check_whitelist_empty:
  "check_whitelist ks [] =
     (case ks of [] \<Rightarrow> None | k # _ \<Rightarrow> Some (Error (not_allowed_message k [])))"
  by (cases ks) (simp_all add: isParameterAllowed_def)

lemma check_whitelist_find:
  "check_whitelist ks W =
     map_option (\<lambda>k. Error (not_allowed_message k W)) (find (\<lambda>k. k \<notin> set W) ks)"
  by (induction ks) (simp_all add: isParameterAllowed_iff)

lemma keys_truthy: "n \<in> set (object_keys v) \<Longrightarrow> truthy v"
  by (cases v) auto

lemma trim_literals [simp]:
  "trim [] = []"
  "trim ''my-job'' = ''my-job''"
  "trim ''APP_VERSION'' = ''APP_VERSION''"
  by (simp_all add: trim_def is_space_def)





lemma trim_secret [simp]: "trim ''SECRET_KEY'' = ''SECRET_KEY''"
  by (simp add: trim_def is_space_def)



section \<open>The audit line\<close>

lemma snd_wrap:
  "snd (case r of (Inl e, w2) \<Rightarrow> (Inl e, w2) | (Inr v, w2) \<Rightarrow> (Inr (f v), w2)) = snd r"
  by (auto split: prod.splits sum.splits)

lemma snd_wrap2:
  "snd (case r of (Inl e, w2) \<Rightarrow> (Inl e, w2)
        | (Inr v, w2) \<Rightarrow> (case g v of Inl e \<Rightarrow> (Inl e, w2) | Inr n \<Rightarrow> (Inr (f v n), w2))) = snd r"
  by (auto split: prod.splits sum.splits)

lemma check_whitelist_None:
  "check_whitelist ks W = None \<longleftrightarrow> (\<forall>k \<in> set ks. k \<in> set W)"
  by (induction ks) (simp_all add: isParameterAllowed_iff)

lemma list_jobs_dispatched: "dispatched ctx ''jenkins_list_jobs'' (list_jobs_execute ctx) params w"
  unfolding dispatched_def list_jobs_execute_def Let_def audit_def call_client_def snd_wrap2 audit_line_def
  by (intro exI, rule arg_cong[where f=snd], rule arg_cong[where f="client ctx _ _"]) auto

lemma get_job_info_audit:
  "if passes_checks ctx ''jenkins_get_job_info'' params
   then dispatched ctx ''jenkins_get_job_info'' (get_job_info_execute ctx) params w
   else (\<exists>e. get_job_info_execute ctx params w = (Inl e, w))"
proof (cases "trim (toStr (param params ''job'')) = []")
  case True
  then show ?thesis by (simp add: passes_checks_def get_job_info_execute_def)
next
  case False
  then have "dispatched ctx ''jenkins_get_job_info'' (get_job_info_execute ctx) params w"
    unfolding dispatched_def get_job_info_execute_def Let_def audit_def call_client_def audit_line_def
    by (simp add: snd_wrap) blast
  with False show ?thesis by (simp add: passes_checks_def)
qed

lemma list_builds_audit:
  "if passes_checks ctx ''jenkins_list_builds'' params
   then dispatched ctx ''jenkins_list_builds'' (list_builds_execute ctx) params w
   else (\<exists>e. list_builds_execute ctx params w = (Inl e, w))"
proof (cases "trim (toStr (param params ''job'')) = []")
  case True
  then show ?thesis by (simp add: passes_checks_def list_builds_execute_def)
next
  case False
  then have "dispatched ctx ''jenkins_list_builds'' (list_builds_execute ctx) params w"
    unfolding dispatched_def list_builds_execute_def Let_def audit_def call_client_def audit_line_def
    by (simp add: snd_wrap) blast
  with False show ?thesis by (simp add: passes_checks_def)
qed

lemma get_build_info_audit:
  "if passes_checks ctx ''jenkins_get_build_info'' params
   then dispatched ctx ''jenkins_get_build_info'' (get_build_info_execute ctx) params w
   else (\<exists>e. get_build_info_execute ctx params w = (Inl e, w))"
proof (cases "trim (toStr (param params ''job'')) = []")
  case True
  then show ?thesis by (simp add: passes_checks_def get_build_info_execute_def)
next
  case False
  show ?thesis
  proof (cases "\<exists>n. param params ''build'' = JNum n")
    case True
    then obtain n where n: "param params ''build'' = JNum n" by blast
    with False have "dispatched ctx ''jenkins_get_build_info'' (get_build_info_execute ctx) params w"
      unfolding dispatched_def get_build_info_execute_def Let_def audit_def call_client_def audit_line_def
      by (simp add: snd_wrap) blast
    with False n show ?thesis by (simp add: passes_checks_def)
  next
    case nonum: False
    with False show ?thesis
      by (cases "param params ''build''") (simp_all add: passes_checks_def get_build_info_execute_def)
  qed
qed

lemma trigger_build_audit:
  "if passes_checks ctx ''jenkins_trigger_build'' params
   then dispatched ctx ''jenkins_trigger_build'' (trigger_build_execute ctx) params w
   else (\<exists>e. trigger_build_execute ctx params w = (Inl e, w))"
proof (cases "trim (toStr (param params ''job'')) = []")
  case True
  then show ?thesis by (simp add: passes_checks_def trigger_build_execute_def)
next
  case False
  let ?check = "if truthy (param params ''parameters'')
                then check_whitelist (object_keys (param params ''parameters''))
                       (allowedParameters (config ctx))
                else None"
  have pc: "passes_checks ctx ''jenkins_trigger_build'' params \<longleftrightarrow> ?check = None"
    using False by (simp add: passes_checks_def check_whitelist_None)
  show ?thesis
  proof (cases ?check)
    case None
    then have "trigger_build_execute ctx params w =
        (case call_client (client ctx) ''triggerBuild''
                [JStr (trim (toStr (param params ''job''))), param params ''parameters'']
                (audit (config ctx) ''jenkins_trigger_build''
                   (JObj [(''job'', JStr (trim (toStr (param params ''job'')))),
                          (''parameters'', param params ''parameters'')]) w) of
           (Inl e, w2) \<Rightarrow> (Inl e, w2)
         | (Inr result, w2) \<Rightarrow>
             (Inr (json (JObj (spread [(''job'', JStr (trim (toStr (param params ''job''))))]
                                 result))), w2))"
      using False unfolding trigger_build_execute_def Let_def by simp
    then have "dispatched ctx ''jenkins_trigger_build'' (trigger_build_execute ctx) params w"
      unfolding dispatched_def audit_def call_client_def audit_line_def
      by (simp only: snd_wrap) (simp, blast)
    with None pc show ?thesis by simp
  next
    case (Some e)
    then have "trigger_build_execute ctx params w = (Inl e, w)"
      using False unfolding trigger_build_execute_def Let_def by simp
    with Some pc show ?thesis by simp
  qed
qed

lemma update_parameter_audit:
  "if passes_checks ctx ''jenkins_update_parameter'' params
   then dispatched ctx ''jenkins_update_parameter'' (update_parameter_execute ctx) params w
   else (\<exists>e. update_parameter_execute ctx params w = (Inl e, w))"
proof -
  let ?job = "trim (toStr (param params ''job''))"
  let ?p = "trim (toStr (param params ''parameter''))"
  have pc: "passes_checks ctx ''jenkins_update_parameter'' params \<longleftrightarrow>
              ?job \<noteq> [] \<and> ?p \<noteq> [] \<and> ?p \<in> set (allowedParameters (config ctx))"
    by (simp add: passes_checks_def)
  show ?thesis
  proof (cases "?job \<noteq> [] \<and> ?p \<noteq> [] \<and> ?p \<in> set (allowedParameters (config ctx))")
    case True
    then have "update_parameter_execute ctx params w =
        (case call_client (client ctx) ''updateParameter''
                [JStr ?job, JStr ?p, JStr (toStr (param params ''value''))]
                (audit (config ctx) ''jenkins_update_parameter''
                   (JObj [(''job'', JStr ?job), (''parameter'', JStr ?p),
                          (''value'', JStr (toStr (param params ''value'')))]) w) of
           (Inl e, w2) \<Rightarrow> (Inl e, w2)
         | (Inr result, w2) \<Rightarrow>
             (Inr (json (JObj (spread [(''job'', JStr ?job), (''parameter'', JStr ?p),
                                       (''value'', JStr (toStr (param params ''value'')))]
                                 result))), w2))"
      unfolding update_parameter_execute_def Let_def by (simp add: isParameterAllowed_iff)
    then have "dispatched ctx ''jenkins_update_parameter'' (update_parameter_execute ctx) params w"
      unfolding dispatched_def audit_def call_client_def audit_line_def
      by (simp only: snd_wrap) (simp, blast)
    with True pc show ?thesis by simp
  next
    case False
    have "\<exists>e. update_parameter_execute ctx params w = (Inl e, w)"
    proof (cases "?job = []")
      case True
      then show ?thesis by (simp add: update_parameter_execute_def)
    next
      case job: False
      show ?thesis
      proof (cases "?p = []")
        case True
        with job show ?thesis by (simp add: update_parameter_execute_def)
      next
        case name: False
        with job False have "?p \<notin> set (allowedParameters (config ctx))" by simp
        with job name show ?thesis
          by (simp add: update_parameter_execute_def Let_def isParameterAllowed_iff)
      qed
    qed
    moreover from False pc have "\<not> passes_checks ctx ''jenkins_update_parameter'' params"
      by blast
    ultimately show ?thesis by simp
  qed
qed


lemma trim_new [simp]: "trim ''2.0.0'' = ''2.0.0''"
  by (simp add: trim_def is_space_def)



section \<open>The configuration resolver\<close>

lemma z_elements_strings:
  "list_all is_JStr xs \<Longrightarrow> z_elements z_string i xs = Inr (map toStr xs)"
proof (induction xs arbitrary: i)
  case Nil
  then show ?case by simp
next
  case (Cons x xs)
  then show ?case by (cases x) simp_all
qed

lemma z_elements_issue:
  "\<not> list_all is_JStr xs \<Longrightarrow> \<exists>is. is \<noteq> [] \<and> z_elements z_string i xs = Inl is"
proof (induction xs arbitrary: i)
  case Nil
  then show ?case by simp
next
  case (Cons x xs)
  show ?case
  proof (cases "is_JStr x")
    case True
    with Cons.prems have "\<not> list_all is_JStr xs" by simp
    from Cons.IH [OF this, of "Suc i"] obtain js where "js \<noteq> []" "z_elements z_string (Suc i) xs = Inl js"
      by blast
    with True show ?thesis by (cases x) simp_all
  next
    case False
    then have "z_string x = Inl [([], ''invalid_type'')]" by (cases x) simp_all
    then show ?thesis by (cases "z_elements z_string (Suc i) xs") simp_all
  qed
qed

lemma baseUrl_field:
  "z_optional (z_url valid_url z_string) x =
     (case x of
        JUndefined \<Rightarrow> Inr None
      | JStr s \<Rightarrow> if valid_url s then Inr (Some s) else Inl [([], ''invalid_string'')]
      | _ \<Rightarrow> Inl [([], ''invalid_type'')])"
  by (cases x) (simp_all add: z_url_def)

lemma account_field:
  "z_default z_string ''default'' x =
     (case x of JUndefined \<Rightarrow> Inr ''default'' | JStr s \<Rightarrow> Inr s | _ \<Rightarrow> Inl [([], ''invalid_type'')])"
  by (cases x) simp_all

lemma allowedParameters_field:
  "z_default (z_array z_string) [] x =
     (case x of JUndefined \<Rightarrow> Inr [] | JArr xs \<Rightarrow> z_elements z_string 0 xs
      | _ \<Rightarrow> Inl [([], ''invalid_type'')])"
  by (cases x) simp_all

lemma timeoutMs_field:
  "z_default (z_positive (z_int z_number)) 30000 x =
     (case x of JUndefined \<Rightarrow> Inr 30000
      | JNum n \<Rightarrow> if 0 < n then Inr n else Inl [([], ''too_small'')]
      | _ \<Rightarrow> Inl [([], ''invalid_type'')])"
  by (cases x) (simp_all add: z_positive_def z_int_def)

lemma auditLog_field:
  "z_default z_boolean True x =
     (case x of JUndefined \<Rightarrow> Inr True | JBool b \<Rightarrow> Inr b | _ \<Rightarrow> Inl [([], ''invalid_type'')])"
  by (cases x) simp_all

lemma schema_unfold:
  "JenkinsConfigSchema valid_url input =
     (case (z_optional (z_url valid_url z_string) (own_prop input ''baseUrl''),
            z_default z_string ''default'' (own_prop input ''account''),
            z_default (z_array z_string) [] (own_prop input ''allowedParameters''),
            z_default (z_positive (z_int z_number)) 30000 (own_prop input ''timeoutMs''),
            z_default z_boolean True (own_prop input ''auditLog'')) of
        (Inr b', Inr a', Inr p', Inr t', Inr l') \<Rightarrow>
           Inr \<lparr>baseUrl = b', account = a', allowedParameters = p', timeoutMs = t', auditLog = l'\<rparr>
      | _ \<Rightarrow>
           Inl (field_issues ''baseUrl'' (z_optional (z_url valid_url z_string) (own_prop input ''baseUrl''))
                @ field_issues ''account'' (z_default z_string ''default'' (own_prop input ''account''))
                @ field_issues ''allowedParameters'' (z_default (z_array z_string) [] (own_prop input ''allowedParameters''))
                @ field_issues ''timeoutMs'' (z_default (z_positive (z_int z_number)) 30000 (own_prop input ''timeoutMs''))
                @ field_issues ''auditLog'' (z_default z_boolean True (own_prop input ''auditLog''))))"
  by (simp only: JenkinsConfigSchema_def Let_def)

lemma five_fields_Inl:
  assumes "isl b \<or> isl a \<or> isl p \<or> isl t \<or> isl l"
  shows "(case (b, a, p, t, l) of
            (Inr b', Inr a', Inr p', Inr t', Inr l') \<Rightarrow> f b' a' p' t' l'
          | _ \<Rightarrow> g) = g"
  using assms by (cases b; cases a; cases p; cases t; cases l) simp_all

lemma issues_of_fields:
  assumes "(\<exists>is. is \<noteq> [] \<and> b = Inl is) \<or> (\<exists>is. is \<noteq> [] \<and> a = Inl is)
     \<or> (\<exists>is. is \<noteq> [] \<and> p = Inl is) \<or> (\<exists>is. is \<noteq> [] \<and> t = Inl is)
     \<or> (\<exists>is. is \<noteq> [] \<and> l = Inl is)"
  shows "(isl b \<or> isl a \<or> isl p \<or> isl t \<or> isl l)
     \<and> field_issues kb b @ field_issues ka a @ field_issues kp p @ field_issues kt t
         @ field_issues kl l \<noteq> []"
  using assms by (elim disjE exE conjE) (simp_all add: field_issues_def)

lemma schema_accepts:
  assumes "well_typed valid_url input"
  shows "JenkinsConfigSchema valid_url input = Inr (with_defaults input)"
proof -
  from assms have
    b: "z_optional (z_url valid_url z_string) (own_prop input ''baseUrl'') =
          Inr (case own_prop input ''baseUrl'' of JStr s \<Rightarrow> Some s | _ \<Rightarrow> None)"
    by (cases "own_prop input ''baseUrl''") (simp_all add: well_typed_def z_url_def)
  from assms have
    a: "z_default z_string ''default'' (own_prop input ''account'') =
          Inr (case own_prop input ''account'' of JStr s \<Rightarrow> s | _ \<Rightarrow> ''default'')"
    by (cases "own_prop input ''account''") (simp_all add: well_typed_def)
  from assms have
    p: "z_default (z_array z_string) [] (own_prop input ''allowedParameters'') =
          Inr (case own_prop input ''allowedParameters'' of JArr xs \<Rightarrow> map toStr xs | _ \<Rightarrow> [])"
    by (cases "own_prop input ''allowedParameters''")
       (simp_all add: well_typed_def z_elements_strings)
  from assms have
    t: "z_default (z_positive (z_int z_number)) 30000 (own_prop input ''timeoutMs'') =
          Inr (case own_prop input ''timeoutMs'' of JNum n \<Rightarrow> n | _ \<Rightarrow> 30000)"
    by (cases "own_prop input ''timeoutMs''") (simp_all add: well_typed_def z_positive_def z_int_def)
  from assms have
    l: "z_default z_boolean True (own_prop input ''auditLog'') =
          Inr (case own_prop input ''auditLog'' of JBool b \<Rightarrow> b | _ \<Rightarrow> True)"
    by (cases "own_prop input ''auditLog''") (simp_all add: well_typed_def)
  show ?thesis
    by (simp only: schema_unfold b a p t l with_defaults_def prod.case sum.case)
qed

lemma schema_rejects:
  assumes "\<not> well_typed valid_url input"
  shows "\<exists>is. is \<noteq> [] \<and> JenkinsConfigSchema valid_url input = Inl is"
proof -
  let ?b = "z_optional (z_url valid_url z_string) (own_prop input ''baseUrl'')"
  let ?a = "z_default z_string ''default'' (own_prop input ''account'')"
  let ?p = "z_default (z_array z_string) [] (own_prop input ''allowedParameters'')"
  let ?t = "z_default (z_positive (z_int z_number)) 30000 (own_prop input ''timeoutMs'')"
  let ?l = "z_default z_boolean True (own_prop input ''auditLog'')"
  have b: "(\<exists>is. is \<noteq> [] \<and> ?b = Inl is)
           \<or> (case own_prop input ''baseUrl'' of JUndefined \<Rightarrow> True | JStr s \<Rightarrow> valid_url s | _ \<Rightarrow> False)"
    by (cases "own_prop input ''baseUrl''") (simp_all add: z_url_def)
  have a: "(\<exists>is. is \<noteq> [] \<and> ?a = Inl is)
           \<or> (case own_prop input ''account'' of JUndefined \<Rightarrow> True | JStr s \<Rightarrow> True | _ \<Rightarrow> False)"
    by (cases "own_prop input ''account''") simp_all
  have p: "(\<exists>is. is \<noteq> [] \<and> ?p = Inl is)
           \<or> (case own_prop input ''allowedParameters'' of
                 JUndefined \<Rightarrow> True | JArr xs \<Rightarrow> list_all is_JStr xs | _ \<Rightarrow> False)"
  proof (cases "own_prop input ''allowedParameters''")
    case (JArr xs)
    then show ?thesis
      using z_elements_issue [of xs 0] by (cases "list_all is_JStr xs") simp_all
  qed simp_all
  have t: "(\<exists>is. is \<noteq> [] \<and> ?t = Inl is)
           \<or> (case own_prop input ''timeoutMs'' of JUndefined \<Rightarrow> True | JNum n \<Rightarrow> 0 < n | _ \<Rightarrow> False)"
    by (cases "own_prop input ''timeoutMs''") (simp_all add: z_positive_def z_int_def)
  have l: "(\<exists>is. is \<noteq> [] \<and> ?l = Inl is)
           \<or> (case own_prop input ''auditLog'' of JUndefined \<Rightarrow> True | JBool b \<Rightarrow> True | _ \<Rightarrow> False)"
    by (cases "own_prop input ''auditLog''") simp_all
  have pick: "\<And>B A P T L X Y Z U V. \<not> (B \<and> A \<and> P \<and> T \<and> L) \<Longrightarrow> X \<or> B \<Longrightarrow> Y \<or> A
      \<Longrightarrow> Z \<or> P \<Longrightarrow> U \<or> T \<Longrightarrow> V \<or> L \<Longrightarrow> X \<or> Y \<or> Z \<or> U \<or> V"
    by blast
  have some:
    "(\<exists>is. is \<noteq> [] \<and> ?b = Inl is) \<or> (\<exists>is. is \<noteq> [] \<and> ?a = Inl is)
     \<or> (\<exists>is. is \<noteq> [] \<and> ?p = Inl is) \<or> (\<exists>is. is \<noteq> [] \<and> ?t = Inl is)
     \<or> (\<exists>is. is \<noteq> [] \<and> ?l = Inl is)"
    by (rule pick [OF assms [unfolded well_typed_def] b a p t l])
  note fields = issues_of_fields [OF some, of "''baseUrl''" "''account''" "''allowedParameters''"
      "''timeoutMs''" "''auditLog''"]
  have isl: "isl ?b \<or> isl ?a \<or> isl ?p \<or> isl ?t \<or> isl ?l"
    by (rule conjunct1 [OF fields])
  have "JenkinsConfigSchema valid_url input =
          Inl (field_issues ''baseUrl'' ?b @ field_issues ''account'' ?a
               @ field_issues ''allowedParameters'' ?p @ field_issues ''timeoutMs'' ?t
               @ field_issues ''auditLog'' ?l)"
    by (rule trans [OF schema_unfold five_fields_Inl [OF isl]])
  then show ?thesis
    by (intro exI conjI) (rule conjunct2 [OF fields], assumption)
qed




section \<open>Reading the credentials\<close>

lemma env_Some:
  "readCredentialsFromEnv nd = Some c \<longleftrightarrow>
     (\<exists>u t. JENKINS_USER nd = Some u \<and> JENKINS_TOKEN nd = Some t
        \<and> trim u \<noteq> [] \<and> trim t \<noteq> [] \<and> c = \<lparr>user = trim u, token = trim t\<rparr>)"
  by (cases "JENKINS_USER nd"; cases "JENKINS_TOKEN nd")
     (auto simp: readCredentialsFromEnv_def)

lemma payload_Some:
  "credentials_of_payload data = Some c \<longleftrightarrow>
     prop_opt data ''user'' = JStr (user c) \<and> prop_opt data ''token'' = JStr (token c)
     \<and> user c \<noteq> [] \<and> token c \<noteq> []"
  unfolding credentials_of_payload_def
  by (cases "prop_opt data ''user''"; cases "prop_opt data ''token''") auto

lemma keychain_Some:
  assumes "readCredentialsFromKeychain nd options w = (Some c, w')"
  shows "\<exists>out data. JSON_parse nd (trim out) = Some data
           \<and> prop_opt data ''user'' = JStr (user c) \<and> prop_opt data ''token'' = JStr (token c)
           \<and> user c \<noteq> [] \<and> token c \<noteq> []"
proof -
  from assms obtain out data where "JSON_parse nd (trim out) = Some data"
    and "credentials_of_payload data = Some c"
    unfolding readCredentialsFromKeychain_def Let_def
    by (simp split: if_splits sum.splits option.splits)
  then show ?thesis unfolding payload_Some by blast
qed

text \<open>
  Claim C4. If \<open>JENKINS_USER\<close> and \<open>JENKINS_TOKEN\<close> are set and not empty after trimming,
  \<open>readJenkinsCredentials\<close> returns the two trimmed values and leaves the trace as it was:
  it runs no command, whatever the account, the platform and \<open>execSync\<close> are. So any two
  runs with the same two variables return the same credentials, whatever the vault holds.
\<close>

theorem env_credentials_win:
  assumes "JENKINS_USER nd = Some u" and "JENKINS_TOKEN nd = Some t"
    and "trim u \<noteq> []" and "trim t \<noteq> []"
  shows "readJenkinsCredentials nd options w = (Some \<lparr>user = trim u, token = trim t\<rparr>, w)
    \<and> (\<forall>nd' options' w'.
          JENKINS_USER nd' = Some u \<and> JENKINS_TOKEN nd' = Some t \<longrightarrow>
          fst (readJenkinsCredentials nd' options' w') = fst (readJenkinsCredentials nd options w))"
proof -
  have env: "\<And>nd'. JENKINS_USER nd' = Some u \<Longrightarrow> JENKINS_TOKEN nd' = Some t \<Longrightarrow>
               readCredentialsFromEnv nd' = Some \<lparr>user = trim u, token = trim t\<rparr>"
    using assms(3,4) by (simp add: readCredentialsFromEnv_def)
  have "\<And>nd' options' w'. JENKINS_USER nd' = Some u \<Longrightarrow> JENKINS_TOKEN nd' = Some t \<Longrightarrow>
          readJenkinsCredentials nd' options' w' = (Some \<lparr>user = trim u, token = trim t\<rparr>, w')"
    by (simp add: readJenkinsCredentials_def env)
  with assms(1,2) show ?thesis by simp
qed


lemma trim_env [simp]:
  "trim '' ci-bot '' = ''ci-bot''" "trim ''env-token'' = ''env-token''"
  by (simp_all add: trim_def is_space_def)

lemma trim_admin_json [simp]: "trim admin_json = admin_json"
  by code_simp

text \<open>
  Environment \<open>" ci-bot "\<close> and \<open>"env-token"\<close> on a Mac whose vault holds other credentials:
  the trimmed environment values come back and no command is run.
\<close>

theorem env_credentials_win_witness:
  "readJenkinsCredentials (vault_node (Some '' ci-bot '') (Some ''env-token'')) no_options []
     = (Some \<lparr>user = ''ci-bot'', token = ''env-token''\<rparr>, [])"
  using env_credentials_win
    [of "vault_node (Some '' ci-bot '') (Some ''env-token'')" "'' ci-bot ''" "''env-token''"
        no_options "[]"]
  by (simp add: vault_node_def)


section \<open>Updating a parameter that is not there\<close>

text \<open>The escaped name, read as a pattern, matches the name and nothing else.\<close>

lemma pattern_literal_escape: "pattern_literal (escapeRegex s) = Some s"
proof (induction s)
  case Nil
  then show ?case by (simp add: escapeRegex_def)
next
  case (Cons c s)
  have step: "escapeRegex (c # s) = (if regex_syntax_char c then [CHR 0x5C, c] else [c]) @ escapeRegex s"
    by (simp add: escapeRegex_def)
  show ?case
  proof (cases "regex_syntax_char c")
    case True
    with Cons step show ?thesis by simp
  next
    case False
    show ?thesis
    proof (cases "escapeRegex s")
      case Nil
      with Cons have "s = []" by simp
      with False step show ?thesis by (simp add: escapeRegex_def)
    next
      case (Cons d r)
      moreover from False have "c \<noteq> CHR 0x5C" by (auto simp: regex_syntax_char_def)
      ultimately show ?thesis using False step Cons.IH by simp
    qed
  qed
qed

text \<open>
  The matcher finds a match exactly in the documents that have a block for the name; so
  \<open>paramPattern.test\<close> decides \<open>has_parameter_block\<close>.
\<close>

lemma starts_with_iff: "starts_with s p \<longleftrightarrow> (\<exists>r. s = p @ r)"
proof
  assume "starts_with s p"
  then have "s = p @ drop (length p) s"
    unfolding starts_with_def by (metis append_take_drop_id)
  then show "\<exists>r. s = p @ r" ..
next
  assume "\<exists>r. s = p @ r"
  then show "starts_with s p" by (auto simp: starts_with_def)
qed

lemma split_first_Some: "split_first n s = Some (a, b) \<Longrightarrow> s = a @ n @ b"
proof (induction s arbitrary: a)
  case Nil
  then show ?case by (simp split: if_splits)
next
  case (Cons c s)
  show ?case
  proof (cases "starts_with (c # s) n")
    case True
    with Cons.prems have "a = []" "b = drop (length n) (c # s)" by simp_all
    moreover from True have "c # s = n @ drop (length n) (c # s)"
      unfolding starts_with_def by (metis append_take_drop_id)
    ultimately show ?thesis by simp
  next
    case False
    with Cons.prems obtain a' where "split_first n s = Some (a', b)" "a = c # a'"
      by (auto split: option.splits)
    with Cons.IH show ?thesis by simp
  qed
qed

lemma split_first_exists:
  "s = a @ n @ b \<Longrightarrow> \<exists>a' b'. split_first n s = Some (a', b') \<and> length a' \<le> length a"
proof (induction a arbitrary: s)
  case Nil
  then have sw: "starts_with s n" by (simp add: starts_with_iff)
  show ?case
  proof (cases s)
    case Nil
    with \<open>s = [] @ n @ b\<close> show ?thesis by simp
  next
    case (Cons c r)
    with sw show ?thesis by simp
  qed
next
  case (Cons x a)
  then obtain r where s: "s = x # r" "r = a @ n @ b" by simp
  show ?case
  proof (cases "starts_with s n")
    case True
    with s show ?thesis by simp
  next
    case False
    from Cons.IH [OF s(2)] obtain a' b' where "split_first n r = Some (a', b')" "length a' \<le> length a"
      by blast
    with False s show ?thesis by simp
  qed
qed

lemma name_element_Cons: "name_element lit @ r = CHR ''<'' # (''name>'' @ lit @ ''</name>'' @ r)"
  by (simp add: name_element_def)

lemma not_space_lt: "\<not> is_space CHR ''<''"
  by (simp add: is_space_def)

lemma match_here_Some:
  assumes "match_here lit s = Some (g1, g2, g3, after)"
  shows "s = g1 @ g2 @ g3 @ after \<and> g3 = value_close
    \<and> (\<exists>spaces between. g1 = param_open @ spaces @ name_element lit @ between @ value_open
          \<and> (\<forall>c \<in> set spaces. is_space c))"
proof -
  let ?s1 = "drop (length param_open) s"
  let ?sp = "takeWhile is_space ?s1"
  let ?s2 = "dropWhile is_space ?s1"
  let ?s2' = "drop (length (name_element lit)) ?s2"
  from assms have sw1: "starts_with s param_open"
    unfolding match_here_def by (simp split: if_splits)
  with assms have sw2: "starts_with ?s2 (name_element lit)"
    unfolding match_here_def Let_def by (simp split: if_splits)
  from assms sw1 sw2 obtain between s3 where sf1: "split_first value_open ?s2' = Some (between, s3)"
    unfolding match_here_def Let_def by (simp split: option.splits prod.splits)
  from assms sw1 sw2 sf1 have sf2: "split_first value_close s3 = Some (g2, after)"
    and g1: "g1 = param_open @ ?sp @ name_element lit @ between @ value_open"
    and g3: "g3 = value_close"
    unfolding match_here_def Let_def by (simp_all split: option.splits prod.splits)
  from sw1 have e1: "s = param_open @ ?s1"
    unfolding starts_with_def by (metis append_take_drop_id)
  have e2: "?s1 = ?sp @ ?s2" by simp
  from sw2 have e3: "?s2 = name_element lit @ ?s2'"
    unfolding starts_with_def by (metis append_take_drop_id)
  from split_first_Some [OF sf1] have e4: "?s2' = between @ value_open @ s3" .
  from split_first_Some [OF sf2] have e5: "s3 = g2 @ value_close @ after" .
  have "s = param_open @ ?sp @ name_element lit @ between @ value_open @ g2 @ value_close @ after"
    by (metis e1 e2 e3 e4 e5)
  moreover have "\<forall>c \<in> set ?sp. is_space c"
    by (metis set_takeWhileD)
  ultimately show ?thesis using g1 g3 by auto
qed

lemma later_suffix:
  assumes eq: "a' @ n @ b' = a @ n @ r" and le: "length a' \<le> length a"
  shows "\<exists>z. b' = z @ r"
proof -
  let ?d = "length a - length a'"
  have "r = drop (length a + length n) (a @ n @ r)" by simp
  also have "\<dots> = drop (length a + length n) (a' @ n @ b')" by (simp only: eq)
  also have "length a + length n = ?d + (length a' + length n)" using le by simp
  also have "drop (?d + (length a' + length n)) (a' @ n @ b')
               = drop ?d (drop (length a' + length n) (a' @ n @ b'))"
    by (simp only: drop_drop)
  also have "drop (length a' + length n) (a' @ n @ b') = b'" by simp
  finally have "r = drop ?d b'" .
  then have "b' = take ?d b' @ r" by simp
  then show ?thesis ..
qed

lemma match_here_block:
  assumes sp: "\<forall>c \<in> set spaces. is_space c"
  shows "match_here lit (param_open @ spaces @ name_element lit @ between
                           @ value_open @ old @ value_close @ post) \<noteq> None"
proof -
  let ?rest = "between @ value_open @ old @ value_close @ post"
  let ?s = "param_open @ spaces @ name_element lit @ ?rest"
  have sw1: "starts_with ?s param_open" by (simp add: starts_with_iff)
  have s1: "drop (length param_open) ?s = spaces @ name_element lit @ ?rest" by simp
  have tw: "takeWhile is_space (spaces @ name_element lit @ ?rest) = spaces"
    using sp by (simp add: takeWhile_append2 name_element_Cons not_space_lt)
  have dw: "dropWhile is_space (spaces @ name_element lit @ ?rest) = name_element lit @ ?rest"
    using sp by (simp add: dropWhile_append2 name_element_Cons not_space_lt)
  have sw2: "starts_with (name_element lit @ ?rest) (name_element lit)"
    by (simp add: starts_with_iff)
  have s2: "drop (length (name_element lit)) (name_element lit @ ?rest) = ?rest" by simp
  from split_first_exists [of ?rest between value_open "old @ value_close @ post"]
  obtain a' b' where sf1: "split_first value_open ?rest = Some (a', b')"
    and le: "length a' \<le> length between"
    by blast
  from split_first_Some [OF sf1] have "a' @ value_open @ b' = between @ value_open @ old @ value_close @ post"
    by simp
  from later_suffix [OF this le] obtain z where b': "b' = z @ old @ value_close @ post" ..
  then have "b' = (z @ old) @ value_close @ post" by simp
  from split_first_exists [OF this]
  obtain a'' b'' where sf2: "split_first value_close b' = Some (a'', b'')"
    by blast
  have "match_here lit ?s =
          Some (param_open @ spaces @ name_element lit @ a' @ value_open, a'', value_close, b'')"
    unfolding match_here_def Let_def s1 tw dw s2
    using sw1 sw2 sf1 sf2 by simp
  then show ?thesis by simp
qed

lemma pattern_exec_here:
  "match_here lit s \<noteq> None \<Longrightarrow> pattern_exec lit (pre @ s) \<noteq> None"
proof (induction pre)
  case Nil
  then show ?case by (cases s) (auto split: option.splits)
next
  case (Cons c pre)
  then show ?case by (auto split: option.splits)
qed

lemma pattern_exec_Some:
  "pattern_exec lit s = Some (before, (g1, g2, g3), after) \<Longrightarrow>
     s = before @ g1 @ g2 @ g3 @ after
     \<and> match_here lit (g1 @ g2 @ g3 @ after) = Some (g1, g2, g3, after)"
proof (induction s arbitrary: before)
  case Nil
  then show ?case using match_here_Some [of lit "[]" g1 g2 g3 after]
    by (auto split: option.splits)
next
  case (Cons c s)
  show ?case
  proof (cases "match_here lit (c # s)")
    case None
    with Cons.prems obtain b' where "pattern_exec lit s = Some (b', (g1, g2, g3), after)" "before = c # b'"
      by (auto split: option.splits)
    with Cons.IH show ?thesis by simp
  next
    case (Some m)
    with Cons.prems have m: "m = (g1, g2, g3, after)" "before = []"
      by (auto split: prod.splits)
    with Some match_here_Some [of lit "c # s" g1 g2 g3 after] show ?thesis by simp
  qed
qed

lemma pattern_test_iff: "pattern_test lit xml \<longleftrightarrow> has_parameter_block lit xml"
proof
  assume "pattern_test lit xml"
  then obtain before g1 g2 g3 after where ex: "pattern_exec lit xml = Some (before, (g1, g2, g3), after)"
    unfolding pattern_test_def by (cases "pattern_exec lit xml") auto
  from pattern_exec_Some [OF ex] have xml: "xml = before @ g1 @ g2 @ g3 @ after"
    and m: "match_here lit (g1 @ g2 @ g3 @ after) = Some (g1, g2, g3, after)"
    by simp_all
  from match_here_Some [OF m] obtain spaces between where
    "g3 = value_close" "g1 = param_open @ spaces @ name_element lit @ between @ value_open"
    "\<forall>c \<in> set spaces. is_space c"
    by blast
  with xml have "xml = before @ param_open @ spaces @ name_element lit @ between
                @ value_open @ g2 @ value_close @ after \<and> (\<forall>c \<in> set spaces. is_space c)"
    by simp
  then show "has_parameter_block lit xml"
    unfolding has_parameter_block_def by blast
next
  assume "has_parameter_block lit xml"
  then obtain pre spaces between old post where
    xml: "xml = pre @ param_open @ spaces @ name_element lit @ between
                @ value_open @ old @ value_close @ post"
    and sp: "\<forall>c \<in> set spaces. is_space c"
    unfolding has_parameter_block_def by blast
  from pattern_exec_here [OF match_here_block [OF sp]] xml
  show "pattern_test lit xml"
    unfolding pattern_test_def by blast
qed

text \<open>
  Claim C5. When the configuration document is fetched (the response is \<open>ok\<close> and its text
  is read) and has no block for the parameter name, \<open>updateParameter\<close> fails with the
  not-found error, and the trace gains the one \<open>GET\<close> of \<open>config.xml\<close> and nothing else: the
  \<open>POST\<close> is not issued. This holds for every job path, name, new value and server.
\<close>

theorem updateParameter_not_found:
  assumes "T w (config_request c jobPath) = Resolved r"
    and "resp_ok r" and "resp_text r = Inr xml"
    and "\<not> has_parameter_block paramName xml"
  shows "updateParameter T c jobPath paramName newValue w =
           (Inl (Error (not_found_message paramName)), w @ [Fetch (config_request c jobPath)])"
  using assms
  by (simp add: updateParameter_def Let_def fetch_def config_request_def not_found_message_def
        pattern_literal_escape pattern_test_iff)

lemma sample_has_no_MISSING: "\<not> pattern_test ''MISSING'' sample_config_xml"
  by code_simp

text \<open>
  The scenario of the specification: \<open>updateParameter("proj", "MISSING", "v")\<close> against a
  document whose only parameter is \<open>APP_VERSION\<close>.
\<close>

theorem updateParameter_not_found_witness:
  "updateParameter config_server test_client ''proj'' ''MISSING'' ''v'' [] =
     (Inl (Error (not_found_message ''MISSING'')), [Fetch (config_request test_client ''proj'')])"
  using updateParameter_not_found
    [of config_server "[]" test_client "''proj''" "xml_response sample_config_xml"
        sample_config_xml "''MISSING''" "''v''"]
    sample_has_no_MISSING
  by (simp add: config_server_def xml_response_def pattern_test_iff)

section \<open>The parameters of a job\<close>

lemma definitions_loop_eq:
  "definitions_loop defs params =
     params @ map make_parameter (filter (\<lambda>d. truthy d \<and> typeof_object d) defs)"
  by (induction defs arbitrary: params) auto

lemma property_loop_eq: "property_loop property params = params @ all_definitions property"
proof (induction property arbitrary: params)
  case Nil
  then show ?case by (simp add: all_definitions_def)
next
  case (Cons p property)
  show ?case
  proof (cases "truthy p \<and> typeof_object p")
    case False
    with Cons show ?thesis by (auto simp: all_definitions_def block_definitions_def)
  next
    case True
    with Cons show ?thesis
      by (cases "own_prop p ''parameterDefinitions''")
         (simp_all add: all_definitions_def block_definitions_def definitions_loop_eq)
  qed
qed

lemma extractParameters_eq:
  assumes "own_prop data ''property'' = JArr property"
  shows "extractParameters data =
           Inr (if all_definitions property = [] then None else Some (all_definitions property))"
proof -
  from assms obtain kvs where "data = JObj kvs" by (cases data) simp_all
  with assms show ?thesis
    by (simp add: extractParameters_def property_loop_eq Let_def)
qed

text \<open>
  Claim C6, as amended. When the response of \<open>getJobInfo\<close> is an object whose \<open>property\<close> is
  an array, \<open>parameters\<close> is the concatenation, in the order of the response, of the
  definitions of every entry that carries a \<open>parameterDefinitions\<close> array (each definition
  that is an object); it is absent when there is none. No entry is ignored in favour of
  an earlier one.
\<close>

theorem getJobInfo_parameters:
  assumes "request T c (normalizeJobPath jobPath @ job_info_tree) None None w = (Inr data, w1)"
    and "own_prop data ''property'' = JArr property"
  shows "\<exists>info. getJobInfo T c jobPath w = (Inr info, w1)
           \<and> parameters info =
               (if all_definitions property = [] then None else Some (all_definitions property))"
  using assms by (simp add: getJobInfo_def Let_def extractParameters_eq)

lemma strip_plain [simp]: "strip_to_last_dot ''StringParameterDefinition'' = ''StringParameterDefinition''"
  by code_simp

lemma string_parameter_object [simp]:
  "truthy (string_parameter n)" "typeof_object (string_parameter n)"
  by (simp_all add: string_parameter_def)

lemma make_string_parameter [simp]: "make_parameter (string_parameter n) = parameter_named n"
  by (simp add: make_parameter_def string_parameter_def parameter_named_def prop_opt_def)

lemma json_request:
  "request (json_server data) test_client path None None w =
     (Inr data, w @ [Fetch \<lparr>url = client_baseUrl test_client @ path, http_method = ''GET'',
                           headers = [(''Authorization'', ''Basic '' @ client_auth test_client),
                                      (''Accept'', ''application/json'')],
                           body = None\<rparr>])"
proof -
  have "str_includes ''application/json'' ''application/json''" by code_simp
  then show ?thesis
    by (simp add: request_def Let_def fetch_def json_server_def json_response_def test_client_def)
qed

text \<open>Two entries with the parameters \<open>A\<close> and \<open>B\<close>: the job has both, in this order.\<close>

theorem getJobInfo_parameters_witness:
  "\<exists>info. getJobInfo (json_server two_blocks) test_client ''my-job'' [] =
            (Inr info,
             snd (request (json_server two_blocks) test_client
                    (normalizeJobPath ''my-job'' @ job_info_tree) None None []))
      \<and> parameters info = Some [parameter_named ''A'', parameter_named ''B'']"
  using getJobInfo_parameters
    [of "json_server two_blocks" test_client "''my-job''" "[]" two_blocks _
        "[JObj [(''parameterDefinitions'', JArr [string_parameter ''A''])],
          JObj [(''parameterDefinitions'', JArr [string_parameter ''B''])]]"]
  by (simp add: json_request two_blocks_def all_definitions_def block_definitions_def)

text \<open>
  Claim C6 as it is written fails on the same response: the parameters are \<open>A\<close> and \<open>B\<close>,
  while the first list alone gives \<open>A\<close>.
\<close>

theorem getJobInfo_first_list_counterexample:
  "map_sum id parameters (fst (getJobInfo (json_server two_blocks) test_client ''my-job'' []))
     = Inr (Some [parameter_named ''A'', parameter_named ''B''])
   \<and> extractParameters first_block_only = Inr (Some [parameter_named ''A''])
   \<and> Some [parameter_named ''A'', parameter_named ''B''] \<noteq> Some [parameter_named ''A'']"
  by (simp add: getJobInfo_def Let_def json_request extractParameters_def two_blocks_def
        first_block_only_def)

end
